theory Spec2Isabelle
  imports Main
begin

section \<open>Python values and exceptions\<close>

text \<open>
  The generator is a Python program over dynamically typed data: the blocks that
  \<^verbatim>\<open>yaml.safe_load\<close> returns and the nested dictionaries of the output document.
  Strings are lists of characters with code points below 256; dictionaries are
  association lists in insertion order whose keys are integers or strings (the two
  shapes a response code or a field name takes in a YAML mapping).
  An exception that the source does not catch ends the run; it is the \<open>Inl\<close> of a
  result.

  \<^verbatim>\<open>yaml.safe_load\<close> gives one object for a YAML anchor and all its aliases, and the
  source changes the objects it loaded in place. A list or mapping that a document
  reaches by more than one way is written \<open>YShared i v\<close>: the object \<open>i\<close> with its
  present content \<open>v\<close>, the same content at every occurrence. An object reached by one
  way only is written plainly, and so is every scalar, which cannot be changed; the root
  of a document is not shared, since that would take a cycle. Reading looks through
  \<open>YShared\<close>; a change of a shared object is a change at every occurrence
  (\<open>assign\<close> below).
\<close>

datatype py_error =
    TypeError | AttributeError | KeyError | IndexError | RecursionError
  | ModuleNotFoundError | YamlError

datatype ykey = KInt int | KStr string

datatype yval =
    YNone | YBool bool | YInt int | YStr string
  | YList "yval list" | YDict "(ykey \<times> yval) list"
  | YShared nat yval

type_synonym ydict = "(ykey \<times> yval) list"

section \<open>String methods\<close>

definition is_space :: "char \<Rightarrow> bool" where
  "is_space c = (c \<in> set [CHR 0x09, CHR 0x0A, CHR 0x0B, CHR 0x0C, CHR 0x0D,
     CHR 0x1C, CHR 0x1D, CHR 0x1E, CHR 0x1F, CHR 0x20, CHR 0x85, CHR 0xA0])"

definition is_linebreak :: "char \<Rightarrow> bool" where
  "is_linebreak c = (c \<in> set [CHR 0x0A, CHR 0x0B, CHR 0x0C, CHR 0x0D,
     CHR 0x1C, CHR 0x1D, CHR 0x1E, CHR 0x85])"

definition lstrip :: "string \<Rightarrow> string" where
  "lstrip s = dropWhile is_space s"

definition rstrip :: "string \<Rightarrow> string" where
  "rstrip s = rev (dropWhile is_space (rev s))"

definition strip :: "string \<Rightarrow> string" where
  "strip s = rstrip (lstrip s)"

text \<open>\<^verbatim>\<open>str.expandtabs()\<close> with the default tab size 8: the column restarts after a
  line feed or a carriage return.\<close>

fun expandtabs_from :: "nat \<Rightarrow> string \<Rightarrow> string" where
  "expandtabs_from col [] = []"
| "expandtabs_from col (c # cs) =
     (if c = CHR 0x09
      then replicate (8 - col mod 8) CHR 0x20 @ expandtabs_from (col + (8 - col mod 8)) cs
      else if c = CHR 0x0A \<or> c = CHR 0x0D then c # expandtabs_from 0 cs
      else c # expandtabs_from (col + 1) cs)"

definition expandtabs :: "string \<Rightarrow> string" where
  "expandtabs s = expandtabs_from 0 s"

text \<open>\<^verbatim>\<open>str.splitlines()\<close>: a carriage return followed by a line feed is one
  boundary, and a boundary at the very end opens no further line.\<close>

fun splitlines_from :: "string \<Rightarrow> string \<Rightarrow> string list" where
  "splitlines_from cur [] = (if cur = [] then [] else [cur])"
| "splitlines_from cur (c # cs) =
     (if c = CHR 0x0D then
        (case cs of
           [] \<Rightarrow> [cur]
         | d # ds \<Rightarrow> if d = CHR 0x0A then cur # splitlines_from [] ds
                     else cur # splitlines_from [] cs)
      else if is_linebreak c then cur # splitlines_from [] cs
      else splitlines_from (cur @ [c]) cs)"

definition splitlines :: "string \<Rightarrow> string list" where
  "splitlines s = splitlines_from [] s"

text \<open>\<^verbatim>\<open>sep.join(parts)\<close>.\<close>

fun join :: "string \<Rightarrow> string list \<Rightarrow> string" where
  "join sep [] = []"
| "join sep [x] = x"
| "join sep (x # y # ys) = x @ sep @ join sep (y # ys)"

section \<open>Trimming a docstring\<close>

text \<open>The running minimum of \<^verbatim>\<open>doc_trim\<close>: \<open>None\<close> stands for
  \<^verbatim>\<open>float('inf')\<close>. The loop runs over all of \<^verbatim>\<open>lines\<close>, the first
  line included.\<close>

fun min_indent :: "nat option \<Rightarrow> string list \<Rightarrow> nat option" where
  "min_indent indent [] = indent"
| "min_indent indent (line # lines) =
     (let stripped = lstrip line in
      if stripped \<noteq> []
      then min_indent (Some (case indent of
                               None \<Rightarrow> length line - length stripped
                             | Some i \<Rightarrow> min i (length line - length stripped))) lines
      else min_indent indent lines)"

definition pop_trailing_blank :: "string list \<Rightarrow> string list" where
  "pop_trailing_blank trimmed = rev (dropWhile (\<lambda>l. l = []) (rev trimmed))"

definition pop_leading_blank :: "string list \<Rightarrow> string list" where
  "pop_leading_blank trimmed = dropWhile (\<lambda>l. l = []) trimmed"

definition doc_trim :: "string \<Rightarrow> py_error + string" where
  "doc_trim docstring =
     (if docstring = [] then Inr []
      else
        let lines = splitlines (expandtabs docstring) in
        (case lines of
           [] \<Rightarrow> Inl IndexError
         | first # _ \<Rightarrow>
             let trimmed = [strip first] @
                   (case min_indent None lines of
                      None \<Rightarrow> []
                    | Some indent \<Rightarrow> map (\<lambda>line. rstrip (drop indent line)) lines)
             in Inr (join [CHR 0x0A] (pop_leading_blank (pop_trailing_blank trimmed)))))"

section \<open>More string methods\<close>

fun starts_with :: "string \<Rightarrow> string \<Rightarrow> bool" where
  "starts_with [] s = True"
| "starts_with (p # ps) [] = False"
| "starts_with (p # ps) (c # cs) = (p = c \<and> starts_with ps cs)"

text \<open>\<^verbatim>\<open>needle in s\<close> on two strings.\<close>

fun contains :: "string \<Rightarrow> string \<Rightarrow> bool" where
  "contains [] needle = (needle = [])"
| "contains (c # cs) needle = (starts_with needle (c # cs) \<or> contains cs needle)"

text \<open>\<^verbatim>\<open>s.replace(old, new)\<close>: occurrences are replaced from the left and do not
  overlap; \<open>skip\<close> counts the characters of a replaced occurrence still to pass.\<close>

fun replace_from :: "nat \<Rightarrow> string \<Rightarrow> string \<Rightarrow> string \<Rightarrow> string" where
  "replace_from skip [] old new = []"
| "replace_from skip (c # cs) old new =
     (if 0 < skip then replace_from (skip - 1) cs old new
      else if starts_with old (c # cs) then new @ replace_from (length old - 1) cs old new
      else c # replace_from 0 cs old new)"

definition replace :: "string \<Rightarrow> string \<Rightarrow> string \<Rightarrow> string" where
  "replace s old new =
     (if old = [] then new @ concat (map (\<lambda>c. c # new) s) else replace_from 0 s old new)"

text \<open>\<^verbatim>\<open>s.split(sep)\<close> for a one-character separator: never an empty list.\<close>

fun split_on :: "char \<Rightarrow> string \<Rightarrow> string list" where
  "split_on sep [] = [[]]"
| "split_on sep (c # cs) =
     (if c = sep then [] # split_on sep cs
      else (case split_on sep cs of
              [] \<Rightarrow> [[c]]
            | part # parts \<Rightarrow> (c # part) # parts))"

text \<open>\<^verbatim>\<open>s.split()\<close>: the runs between white space, none of them empty.\<close>

fun split_ws_from :: "string \<Rightarrow> string \<Rightarrow> string list" where
  "split_ws_from cur [] = (if cur = [] then [] else [cur])"
| "split_ws_from cur (c # cs) =
     (if is_space c then (if cur = [] then split_ws_from [] cs else cur # split_ws_from [] cs)
      else split_ws_from (cur @ [c]) cs)"

definition split_ws :: "string \<Rightarrow> string list" where
  "split_ws s = split_ws_from [] s"

text \<open>Case mapping, on the ASCII letters (module, file and entity names are taken to be
  ASCII); other characters are left as they are.\<close>

definition upper_char :: "char \<Rightarrow> char" where
  "upper_char c =
     (case map_of (zip ''abcdefghijklmnopqrstuvwxyz'' ''ABCDEFGHIJKLMNOPQRSTUVWXYZ'') c of
        None \<Rightarrow> c | Some u \<Rightarrow> u)"

definition lower_char :: "char \<Rightarrow> char" where
  "lower_char c =
     (case map_of (zip ''ABCDEFGHIJKLMNOPQRSTUVWXYZ'' ''abcdefghijklmnopqrstuvwxyz'') c of
        None \<Rightarrow> c | Some l \<Rightarrow> l)"

definition lower :: "string \<Rightarrow> string" where
  "lower s = map lower_char s"

definition capitalize :: "string \<Rightarrow> string" where
  "capitalize s = (case s of [] \<Rightarrow> [] | c # cs \<Rightarrow> upper_char c # map lower_char cs)"

definition capitalise :: "string \<Rightarrow> string" where
  "capitalise string = join '' '' (map capitalize (split_ws string))"

text \<open>\<^verbatim>\<open>str(code)\<close> of a dictionary key.\<close>

fun digits :: "nat \<Rightarrow> string" where
  "digits n = (if n < 10 then [''0123456789'' ! n]
               else digits (n div 10) @ [''0123456789'' ! (n mod 10)])"

definition str_int :: "int \<Rightarrow> string" where
  "str_int i = (if i < 0 then CHR ''-'' # digits (nat (- i)) else digits (nat i))"

fun py_str :: "ykey \<Rightarrow> string" where
  "py_str (KInt i) = str_int i"
| "py_str (KStr s) = s"

section \<open>Dictionaries and dynamic typing\<close>

text \<open>\<^verbatim>\<open>d[k] = v\<close>: an existing key keeps its place.\<close>

fun dict_set :: "'k \<Rightarrow> 'v \<Rightarrow> ('k \<times> 'v) list \<Rightarrow> ('k \<times> 'v) list" where
  "dict_set k v [] = [(k, v)]"
| "dict_set k v (p # ps) = (if fst p = k then (k, v) # ps else p # dict_set k v ps)"

definition dict_del :: "'k \<Rightarrow> ('k \<times> 'v) list \<Rightarrow> ('k \<times> 'v) list" where
  "dict_del k d = filter (\<lambda>p. fst p \<noteq> k) d"

definition has_key :: "'k \<Rightarrow> ('k \<times> 'v) list \<Rightarrow> bool" where
  "has_key k d = (map_of d k \<noteq> None)"

text \<open>\<^verbatim>\<open>d.update(other)\<close>.\<close>

fun dict_update :: "('k \<times> 'v) list \<Rightarrow> ('k \<times> 'v) list \<Rightarrow> ('k \<times> 'v) list" where
  "dict_update d [] = d"
| "dict_update d (p # ps) = dict_update (dict_set (fst p) (snd p) d) ps"

text \<open>\<^verbatim>\<open>'key' in x\<close> for a string on the left: key membership in a mapping,
  element membership in a list, substring test in a string, a \<^verbatim>\<open>TypeError\<close> on
  anything else.\<close>

fun py_in :: "string \<Rightarrow> yval \<Rightarrow> py_error + bool" where
  "py_in k (YDict d) = Inr (has_key (KStr k) d)"
| "py_in k (YList xs) = Inr (YStr k \<in> set xs)"
| "py_in k (YStr s) = Inr (contains s k)"
| "py_in k YNone = Inl TypeError"
| "py_in k (YBool b) = Inl TypeError"
| "py_in k (YInt i) = Inl TypeError"
| "py_in k (YShared i v) = py_in k v"

text \<open>\<^verbatim>\<open>x['key']\<close> for a string key.\<close>

fun py_getitem :: "yval \<Rightarrow> string \<Rightarrow> py_error + yval" where
  "py_getitem (YDict d) k = (case map_of d (KStr k) of None \<Rightarrow> Inl KeyError | Some v \<Rightarrow> Inr v)"
| "py_getitem (YList xs) k = Inl TypeError"
| "py_getitem (YStr s) k = Inl TypeError"
| "py_getitem YNone k = Inl TypeError"
| "py_getitem (YBool b) k = Inl TypeError"
| "py_getitem (YInt i) k = Inl TypeError"
| "py_getitem (YShared i v) k = py_getitem v k"

text \<open>Truth value of an object in a condition.\<close>

fun truthy :: "yval \<Rightarrow> bool" where
  "truthy YNone = False"
| "truthy (YBool b) = b"
| "truthy (YInt i) = (i \<noteq> 0)"
| "truthy (YStr s) = (s \<noteq> [])"
| "truthy (YList xs) = (xs \<noteq> [])"
| "truthy (YDict d) = (d \<noteq> [])"
| "truthy (YShared i v) = truthy v"

text \<open>\<^verbatim>\<open>x += text\<close> for a string on the right: string concatenation; a list is
  extended by the characters of the text (the result is the content of the same list
  object); every other left operand is a \<^verbatim>\<open>TypeError\<close>.\<close>

fun py_iadd_str :: "yval \<Rightarrow> string \<Rightarrow> py_error + yval" where
  "py_iadd_str (YStr s) t = Inr (YStr (s @ t))"
| "py_iadd_str (YList xs) t = Inr (YList (xs @ map (\<lambda>c. YStr [c]) t))"
| "py_iadd_str YNone t = Inl TypeError"
| "py_iadd_str (YBool b) t = Inl TypeError"
| "py_iadd_str (YInt i) t = Inl TypeError"
| "py_iadd_str (YDict d) t = Inl TypeError"
| "py_iadd_str (YShared i v) t = py_iadd_str v t"

section \<open>Objects reached by more than one way\<close>

text \<open>The object behind a value.\<close>

fun content :: "yval \<Rightarrow> yval" where
  "content (YShared i v) = content v"
| "content YNone = YNone"
| "content (YBool b) = YBool b"
| "content (YInt n) = YInt n"
| "content (YStr s) = YStr s"
| "content (YList xs) = YList xs"
| "content (YDict d) = YDict d"

text \<open>The object \<open>i\<close> takes the content \<open>c\<close>: what a value, a list and a mapping
  that hold occurrences of the object are afterwards.\<close>

fun assign :: "nat \<Rightarrow> yval \<Rightarrow> yval \<Rightarrow> yval"
  and assign_list :: "nat \<Rightarrow> yval \<Rightarrow> yval list \<Rightarrow> yval list"
  and assign_dict :: "nat \<Rightarrow> yval \<Rightarrow> (ykey \<times> yval) list \<Rightarrow> (ykey \<times> yval) list" where
  "assign i c (YShared j v) = (if j = i then YShared j c else YShared j (assign i c v))"
| "assign i c (YDict d) = YDict (assign_dict i c d)"
| "assign i c (YList xs) = YList (assign_list i c xs)"
| "assign i c (YStr s) = YStr s"
| "assign i c (YInt n) = YInt n"
| "assign i c (YBool b) = YBool b"
| "assign i c YNone = YNone"
| "assign_list i c [] = []"
| "assign_list i c (x # xs) = assign i c x # assign_list i c xs"
| "assign_dict i c [] = []"
| "assign_dict i c ((k, v) # d) = (k, assign i c v) # assign_dict i c d"

text \<open>A change of the object that a dictionary holds under a key, as in
  \<^verbatim>\<open>d[k].append(x)\<close> or \<^verbatim>\<open>d[k] += x\<close> on a list: a shared object changes at
  every occurrence in the dictionary; for a value of its own the key takes the new
  content.\<close>

definition set_object :: "ykey \<Rightarrow> yval \<Rightarrow> ydict \<Rightarrow> ydict" where
  "set_object k c d =
     (case map_of d k of
        Some (YShared i v) \<Rightarrow> assign_dict i c d
      | _ \<Rightarrow> dict_set k c d)"

section \<open>The declarations the generator reads\<close>

text \<open>
  A structured docstring enters the model as what \<^verbatim>\<open>yaml.safe_load\<close> makes of the
  trimmed text (the YAML reader is an external library): the loaded value, a
  \<^verbatim>\<open>ScannerError\<close>, or another YAML exception, which no handler of the source
  catches. \<open>NoDocstring\<close> is \<^verbatim>\<open>__doc__ is None\<close>.
\<close>

datatype docstring = NoDocstring | Unscannable | Unparsable | Yaml yval

datatype load_result = ScannerError | OtherYamlError | Loaded yval

record serializer =
  ser_name :: string
  ser_doc :: docstring
  field_map :: "string list"

record controller =
  ctrl_name :: string
  search_fields :: "(string \<times> string list) list"
  allowed_ordering :: "string list"
  validation_order :: "string list"
  validators :: "(string \<times> docstring) list"

record view_method =
  meth_name :: string
  meth_doc :: docstring

record view_class =
  class_name :: string
  serializer_class :: "serializer option"
  methods :: "(string \<times> view_method) list"

record source_file =
  file_path :: string
  file_doc :: "string option"

record urlpattern =
  lookup_str :: string
  pattern :: string

text \<open>The module under documentation: what \<^verbatim>\<open>import_module\<close> and
  \<^verbatim>\<open>getattr\<close> find. \<open>version\<close> is \<open>None\<close> when reading or splitting
  \<^verbatim>\<open>__version__\<close> raises \<^verbatim>\<open>AttributeError\<close>. A permission file is the list of
  the methods of its \<^verbatim>\<open>Permissions\<close> class with their raw docstrings.\<close>

record env =
  "module_name" :: string
  version :: "string option"
  module_doc :: "string option"
  view_files :: "source_file list"
  urlpatterns :: "urlpattern list"
  modules :: "(string \<times> source_file) list"
  view_module :: "(string \<times> view_class) list"
  serializer_mod :: "(string \<times> serializer) list"
  controller_mod :: "(string \<times> controller) list"
  permission_files :: "(string \<times> (string \<times> string option) list) list"

text \<open>The command object: the error flag, the parts of the output document that the
  run writes, and the current working references. \<^verbatim>\<open>method_spec\<close> is a reference
  into \<open>paths\<close>, at the current \<open>url\<close> and \<open>method_name\<close>.\<close>

record state =
  errors :: bool
  info :: ydict
  tags :: "yval list"
  paths :: "(string \<times> (string \<times> ydict) list) list"
  schemas :: "(string \<times> yval) list"
  servers :: "yval option"
  externalDocs :: "yval option"
  model_name :: string
  method_name :: string
  url :: string
  tag :: string
  get_is_list :: bool

section \<open>Docstrings\<close>

text \<open>\<^verbatim>\<open>ensure_docstring\<close> on an object with a raw docstring.\<close>

definition ensure_docstring :: "string option \<Rightarrow> state \<Rightarrow> py_error + (string \<times> state)" where
  "ensure_docstring doc st =
     (case doc of
        None \<Rightarrow> (case doc_trim [] of Inl e \<Rightarrow> Inl e | Inr d \<Rightarrow> Inr (d, st\<lparr>errors := True\<rparr>))
      | Some text \<Rightarrow> (case doc_trim text of Inl e \<Rightarrow> Inl e | Inr d \<Rightarrow> Inr (d, st)))"

text \<open>\<^verbatim>\<open>yaml.safe_load(self.ensure_docstring(obj))\<close>: a missing docstring sets the
  flag and loads the empty text, which is \<^verbatim>\<open>None\<close>.\<close>

definition ensure_flag :: "docstring \<Rightarrow> state \<Rightarrow> state" where
  "ensure_flag doc st = (if doc = NoDocstring then st\<lparr>errors := True\<rparr> else st)"

fun safe_load :: "docstring \<Rightarrow> load_result" where
  "safe_load NoDocstring = Loaded YNone"
| "safe_load Unscannable = ScannerError"
| "safe_load Unparsable = OtherYamlError"
| "safe_load (Yaml v) = Loaded v"

section \<open>Field-mapping declarations\<close>

text \<open>\<^verbatim>\<open>parse_sub_serializer\<close>. \<open>parse\<close> is the call of
  \<^verbatim>\<open>self.parse_serializer\<close>, one frame deeper.\<close>

definition parse_sub_serializer ::
  "(serializer option \<Rightarrow> state \<Rightarrow> py_error + state) \<Rightarrow> env \<Rightarrow> string \<Rightarrow> yval \<Rightarrow> state
     \<Rightarrow> py_error + state" where
  "parse_sub_serializer parse e serializer ref st =
     (case ref of
        YStr r \<Rightarrow>
          let sub_serializer_name = last (split_on CHR ''/'' r) in
          if serializer = sub_serializer_name then Inr st
          else
            let sub_serializer = map_of (serializer_mod e) (sub_serializer_name @ ''Serializer'');
                parent_model = model_name st
            in (case parse sub_serializer (st\<lparr>model_name := sub_serializer_name\<rparr>) of
                  Inl err \<Rightarrow> Inl err
                | Inr st' \<Rightarrow> Inr (st'\<lparr>model_name := parent_model\<rparr>))
      | _ \<Rightarrow> Inl AttributeError)"

text \<open>One turn of the loop over \<^verbatim>\<open>serializer._field_map\<close>, after the field was
  found in \<^verbatim>\<open>doc_fields\<close>: the checks on the field's documentation entry.\<close>

definition check_field_items ::
  "(yval \<Rightarrow> state \<Rightarrow> py_error + state) \<Rightarrow> yval \<Rightarrow> state \<Rightarrow> py_error + state" where
  "check_field_items sub field_items st =
     (case py_in ''$ref'' field_items of
        Inl err \<Rightarrow> Inl err
      | Inr True \<Rightarrow>
          (case py_getitem field_items ''$ref'' of
             Inl err \<Rightarrow> Inl err
           | Inr ref \<Rightarrow> sub ref st)
      | Inr False \<Rightarrow>
          (case py_in ''description'' field_items of
             Inl err \<Rightarrow> Inl err
           | Inr False \<Rightarrow> Inr (st\<lparr>errors := True\<rparr>)
           | Inr True \<Rightarrow>
               (case py_in ''type'' field_items of
                  Inl err \<Rightarrow> Inl err
                | Inr False \<Rightarrow> Inr (st\<lparr>errors := True\<rparr>)
                | Inr True \<Rightarrow>
                    (case py_getitem field_items ''type'' of
                       Inl err \<Rightarrow> Inl err
                     | Inr ty \<Rightarrow>
                         if ty = YStr ''array'' then
                           (case py_in ''items'' field_items of
                              Inl err \<Rightarrow> Inl err
                            | Inr False \<Rightarrow> Inr (st\<lparr>errors := True\<rparr>)
                            | Inr True \<Rightarrow>
                                (case py_getitem field_items ''items'' of
                                   Inl err \<Rightarrow> Inl err
                                 | Inr items \<Rightarrow>
                                     (case py_in ''$ref'' items of
                                        Inl err \<Rightarrow> Inl err
                                      | Inr False \<Rightarrow> Inr st
                                      | Inr True \<Rightarrow>
                                          (case py_getitem items ''$ref'' of
                                             Inl err \<Rightarrow> Inl err
                                           | Inr ref \<Rightarrow> sub ref st))))
                         else Inr st))))"

text \<open>The loop over \<^verbatim>\<open>serializer._field_map\<close>; \<open>doc_fields\<close> is the set of
  documentation keys not matched so far.\<close>

fun serializer_fields ::
  "(yval \<Rightarrow> state \<Rightarrow> py_error + state) \<Rightarrow> ydict \<Rightarrow> string list \<Rightarrow> ykey list \<Rightarrow> state
     \<Rightarrow> py_error + (ykey list \<times> state)" where
  "serializer_fields sub serializer_items [] doc_fields st = Inr (doc_fields, st)"
| "serializer_fields sub serializer_items (field_name # rest) doc_fields st =
     (if contains field_name ''old_'' then
        serializer_fields sub serializer_items rest doc_fields st
      else if KStr field_name \<notin> set doc_fields then
        serializer_fields sub serializer_items rest doc_fields (st\<lparr>errors := True\<rparr>)
      else
        (case map_of serializer_items (KStr field_name) of
           None \<Rightarrow> Inl KeyError
         | Some field_items \<Rightarrow>
             (case check_field_items sub field_items st of
                Inl err \<Rightarrow> Inl err
              | Inr st' \<Rightarrow>
                  serializer_fields sub serializer_items rest
                    (removeAll (KStr field_name) doc_fields) st')))"

text \<open>The whole loop for one declaration: it starts from all the keys of the
  documentation block, and a reference found in it goes to
  \<^verbatim>\<open>parse_sub_serializer\<close>.\<close>

definition reconcile_fields ::
  "(serializer option \<Rightarrow> state \<Rightarrow> py_error + state) \<Rightarrow> env \<Rightarrow> serializer \<Rightarrow> ydict \<Rightarrow> state
     \<Rightarrow> py_error + (ykey list \<times> state)" where
  "reconcile_fields parse e ser serializer_items st =
     serializer_fields (parse_sub_serializer parse e (ser_name ser))
       serializer_items (field_map ser) (map fst serializer_items) st"

text \<open>The three schemas registered for an entity.\<close>

definition model_schema :: "ykey list \<Rightarrow> ydict \<Rightarrow> yval" where
  "model_schema required serializer_items =
     YDict [(KStr ''type'', YStr ''object''),
            (KStr ''required'', YList (map (\<lambda>k. case k of KInt i \<Rightarrow> YInt i | KStr s \<Rightarrow> YStr s) required)),
            (KStr ''properties'', YDict serializer_items)]"

definition response_schema :: "string \<Rightarrow> yval" where
  "response_schema model =
     YDict [(KStr ''type'', YStr ''object''),
            (KStr ''properties'', YDict [
               (KStr ''content'', YDict [(KStr ''$ref'', YStr (''#/components/schemas/'' @ model))])])]"

definition list_schema :: "string \<Rightarrow> yval" where
  "list_schema model =
     YDict [(KStr ''type'', YStr ''object''),
            (KStr ''properties'', YDict [
               (KStr ''content'', YDict [
                  (KStr ''type'', YStr ''array''),
                  (KStr ''items'', YDict [(KStr ''$ref'', YStr (''#/components/schemas/'' @ model))])]),
               (KStr ''_metadata'', YDict [(KStr ''$ref'', YStr ''#/components/schemas/ListMetadata'')])])]"

definition register_model :: "ykey list \<Rightarrow> ydict \<Rightarrow> state \<Rightarrow> state" where
  "register_model required serializer_items st =
     st\<lparr>schemas :=
          dict_set (model_name st @ ''List'') (list_schema (model_name st))
            (dict_set (model_name st @ ''Response'') (response_schema (model_name st))
               (dict_set (model_name st) (model_schema required serializer_items) (schemas st)))\<rparr>"

text \<open>\<^verbatim>\<open>", ".join(keys)\<close> in an error message raises \<^verbatim>\<open>TypeError\<close> on a
  key that is not a string.\<close>

definition all_str_keys :: "ykey list \<Rightarrow> bool" where
  "all_str_keys ks = list_all (\<lambda>k. case k of KStr s \<Rightarrow> True | KInt i \<Rightarrow> False) ks"

text \<open>\<^verbatim>\<open>parse_serializer\<close>. The first argument is the number of nested calls the
  interpreter's stack still has room for: at 0 the call is a \<^verbatim>\<open>RecursionError\<close>.\<close>

primrec parse_serializer :: "nat \<Rightarrow> env \<Rightarrow> serializer option \<Rightarrow> state \<Rightarrow> py_error + state" where
  "parse_serializer 0 e = (\<lambda>serializer st. Inl RecursionError)"
| "parse_serializer (Suc depth) e = (\<lambda>serializer st.
     case serializer of
       None \<Rightarrow> Inr st
     | Some ser \<Rightarrow>
         if has_key (model_name st) (schemas st) then Inr st
         else
           let st1 = ensure_flag (ser_doc ser) st in
           (case safe_load (ser_doc ser) of
              ScannerError \<Rightarrow> Inr (st1\<lparr>errors := True\<rparr>)
            | OtherYamlError \<Rightarrow> Inl YamlError
            | Loaded (YDict serializer_items) \<Rightarrow>
                (case reconcile_fields (parse_serializer depth e) e ser serializer_items st1 of
                   Inl err \<Rightarrow> Inl err
                 | Inr (doc_fields, st2) \<Rightarrow>
                     if doc_fields \<noteq> [] then
                       (if all_str_keys doc_fields then Inr (st2\<lparr>errors := True\<rparr>)
                        else Inl TypeError)
                     else Inr (register_model (map fst serializer_items) serializer_items st2))
            | Loaded _ \<Rightarrow> Inr (st1\<lparr>errors := True\<rparr>)))"

section \<open>Route patterns\<close>

definition is_lower_az :: "char \<Rightarrow> bool" where
  "is_lower_az c = (97 \<le> (of_char c :: nat) \<and> (of_char c :: nat) \<le> 122)"

definition is_name_char :: "char \<Rightarrow> bool" where
  "is_name_char c = (is_lower_az c \<or> c = CHR ''_'')"

text \<open>\<^verbatim>\<open>DJANGO_PATH_PARAM_PATTERN\<close> matched at the head of a text: an opening
  angle bracket (the backslash before it is an escape), one or more of \<^verbatim>\<open>[a-z]\<close>, a
  colon, one or more of \<^verbatim>\<open>[a-z_]\<close> (the group that names the parameter) and a
  closing angle bracket. The result is the whole match and the name. Neither class holds
  the character that has to follow it, so the greedy runs are the only way to match.\<close>

definition match_django :: "string \<Rightarrow> (string \<times> string) option" where
  "match_django s =
     (case s of
        [] \<Rightarrow> None
      | c # r \<Rightarrow>
          if c \<noteq> CHR ''<'' then None
          else
            let ty = takeWhile is_lower_az r in
            if ty = [] then None
            else (case dropWhile is_lower_az r of
                    [] \<Rightarrow> None
                  | d # r2 \<Rightarrow>
                      if d \<noteq> CHR '':'' then None
                      else
                        let name = takeWhile is_name_char r2 in
                        if name = [] then None
                        else (case dropWhile is_name_char r2 of
                                [] \<Rightarrow> None
                              | g # r3 \<Rightarrow>
                                  if g \<noteq> CHR ''>'' then None
                                  else Some (''<'' @ ty @ '':'' @ name @ ''>'', name))))"

text \<open>\<^verbatim>\<open>findall\<close>: matches from the left, not overlapping; \<open>skip\<close> counts the
  characters of the last match still to pass.\<close>

fun django_findall_from :: "nat \<Rightarrow> string \<Rightarrow> (string \<times> string) list" where
  "django_findall_from skip [] = []"
| "django_findall_from skip (c # cs) =
     (if 0 < skip then django_findall_from (skip - 1) cs
      else (case match_django (c # cs) of
              None \<Rightarrow> django_findall_from 0 cs
            | Some (whole, name) \<Rightarrow> (whole, name) # django_findall_from (length whole - 1) cs))"

fun replace_all :: "string \<Rightarrow> (string \<times> string) list \<Rightarrow> string" where
  "replace_all url_pattern [] = url_pattern"
| "replace_all url_pattern ((pat, name) # path_params) =
     replace_all (replace url_pattern pat (''{'' @ name @ ''}'')) path_params"

definition get_url :: "string \<Rightarrow> string" where
  "get_url url_pattern =
     (let path_params = django_findall_from 0 url_pattern in
      if length url_pattern = 0 then ''/''
      else replace_all (if hd url_pattern \<noteq> CHR ''/'' then ''/'' @ url_pattern else url_pattern)
             path_params)"

text \<open>\<^verbatim>\<open>DOC_PATH_PARAM_PATTERN\<close>, the regular expression \<^verbatim>\<open>{([a-z_]+)}\<close>.\<close>

definition match_doc :: "string \<Rightarrow> string option" where
  "match_doc s =
     (case s of
        [] \<Rightarrow> None
      | c # r \<Rightarrow>
          if c \<noteq> CHR ''{'' then None
          else
            let name = takeWhile is_name_char r in
            if name = [] then None
            else (case dropWhile is_name_char r of
                    [] \<Rightarrow> None
                  | g # r2 \<Rightarrow> if g \<noteq> CHR ''}'' then None else Some name))"

fun doc_findall_from :: "nat \<Rightarrow> string \<Rightarrow> string list" where
  "doc_findall_from skip [] = []"
| "doc_findall_from skip (c # cs) =
     (if 0 < skip then doc_findall_from (skip - 1) cs
      else (case match_doc (c # cs) of
              None \<Rightarrow> doc_findall_from 0 cs
            | Some name \<Rightarrow> name # doc_findall_from (length name + 1) cs))"

definition doc_findall :: "string \<Rightarrow> string list" where
  "doc_findall s = doc_findall_from 0 s"

section \<open>Operations\<close>

text \<open>
  While a method is parsed, \<^verbatim>\<open>self.method_spec\<close> is the dictionary stored at
  \<^verbatim>\<open>spec['paths'][url][method_name]\<close>. The model carries it beside the state and
  \<open>parse_view_method\<close> stores it back into \<open>paths\<close> on every way out, so that the
  document holds what the source's writes through the reference leave there.
\<close>

text \<open>\<^verbatim>\<open>x.pop(key, None)\<close>: the value (\<^verbatim>\<open>None\<close> when absent) and the content of
  the object afterwards. A list's \<^verbatim>\<open>pop\<close> takes one argument; other objects have no
  \<^verbatim>\<open>pop\<close>.\<close>

fun py_pop :: "yval \<Rightarrow> string \<Rightarrow> py_error + (yval \<times> ydict)" where
  "py_pop (YDict d) k =
     Inr (case map_of d (KStr k) of None \<Rightarrow> YNone | Some v \<Rightarrow> v, dict_del (KStr k) d)"
| "py_pop (YList xs) k = Inl TypeError"
| "py_pop (YStr s) k = Inl AttributeError"
| "py_pop YNone k = Inl AttributeError"
| "py_pop (YBool b) k = Inl AttributeError"
| "py_pop (YInt i) k = Inl AttributeError"
| "py_pop (YShared i v) k = py_pop v k"

text \<open>\<^verbatim>\<open>self.method_spec.setdefault('parameters', [])\<close>.\<close>

definition setdefault :: "ykey \<Rightarrow> yval \<Rightarrow> ydict \<Rightarrow> ydict" where
  "setdefault k v d = (if has_key k d then d else d @ [(k, v)])"

text \<open>\<^verbatim>\<open>self.method_spec['parameters'].append(param_data)\<close>.\<close>

definition append_parameter :: "yval \<Rightarrow> ydict \<Rightarrow> py_error + ydict" where
  "append_parameter param_data method_spec =
     (case map_of method_spec (KStr ''parameters'') of
        None \<Rightarrow> Inl KeyError
      | Some parameters \<Rightarrow>
          (case content parameters of
             YList ps \<Rightarrow>
               Inr (set_object (KStr ''parameters'') (YList (ps @ [param_data])) method_spec)
           | _ \<Rightarrow> Inl AttributeError))"

definition param_data :: "string \<Rightarrow> yval \<Rightarrow> ydict \<Rightarrow> yval" where
  "param_data param param_type details =
     YDict (dict_update
       [(KStr ''in'', YStr ''path''),
        (KStr ''required'', YBool True),
        (KStr ''name'', YStr param),
        (KStr ''schema'', YDict [(KStr ''type'', param_type)])]
       details)"

text \<open>A \<^verbatim>\<open>pop\<close> changes the object it is called on. \<open>popped node c\<close> is the
  value \<open>node\<close> once its object has the content \<open>c\<close>; \<open>popped_in node c x\<close> and
  \<open>popped_from node c d\<close> are a value \<open>x\<close> and a dictionary \<open>d\<close> that may hold
  occurrences of that object.\<close>

definition popped :: "yval \<Rightarrow> yval \<Rightarrow> yval" where
  "popped node c = (case node of YShared i v \<Rightarrow> YShared i c | _ \<Rightarrow> c)"

definition popped_in :: "yval \<Rightarrow> yval \<Rightarrow> yval \<Rightarrow> yval" where
  "popped_in node c x = (case node of YShared i v \<Rightarrow> assign i c x | _ \<Rightarrow> x)"

definition popped_from :: "yval \<Rightarrow> yval \<Rightarrow> ydict \<Rightarrow> ydict" where
  "popped_from node c d = (case node of YShared i v \<Rightarrow> assign_dict i c d | _ \<Rightarrow> d)"

text \<open>The loop of \<^verbatim>\<open>parse_path_params\<close> over the placeholders of the URL: the
  declarations not yet consumed, the method's dictionary and the error flag.
  \<^verbatim>\<open>path_params.pop(param, None)\<close> changes the mapping of the declarations and
  \<^verbatim>\<open>details.pop('type', None)\<close> changes the declaration itself, also where another
  key of the declarations or the method's dictionary holds the same object.\<close>

fun path_params_loop ::
  "string list \<Rightarrow> yval \<Rightarrow> ydict \<Rightarrow> bool \<Rightarrow> py_error + (yval \<times> ydict \<times> bool)" where
  "path_params_loop [] path_params method_spec errs = Inr (path_params, method_spec, errs)"
| "path_params_loop (param # params) path_params method_spec errs =
     (case py_pop path_params param of
        Inl err \<Rightarrow> Inl err
      | Inr (details, left) \<Rightarrow>
          let path_params1 = popped path_params (YDict left);
              method_spec1 = popped_from path_params (YDict left) method_spec
          in
          if details = YNone then path_params_loop params path_params1 method_spec1 True
          else
            (case py_pop details ''type'' of
               Inl err \<Rightarrow> Inl err
             | Inr (param_type, details') \<Rightarrow>
                 let path_params2 = popped_in details (YDict details') path_params1;
                     method_spec2 = popped_from details (YDict details') method_spec1
                 in
                 if param_type = YNone then
                   path_params_loop params path_params2 method_spec2 True
                 else
                   (case append_parameter (param_data param param_type details') method_spec2 of
                      Inl err \<Rightarrow> Inl err
                    | Inr method_spec' \<Rightarrow>
                        path_params_loop params path_params2 method_spec' errs)))"

definition parse_path_params :: "yval \<Rightarrow> ydict \<Rightarrow> state \<Rightarrow> py_error + (ydict \<times> state)" where
  "parse_path_params path_params method_spec st =
     (case path_params_loop (doc_findall (url st)) path_params
             (setdefault (KStr ''parameters'') (YList []) method_spec) (errors st) of
        Inl err \<Rightarrow> Inl err
      | Inr (left, method_spec', errs) \<Rightarrow>
          if content left \<noteq> YDict [] then
            (case content left of
               YDict d \<Rightarrow>
                 if all_str_keys (map fst d) then Inr (method_spec', st\<lparr>errors := True\<rparr>)
                 else Inl TypeError
             | _ \<Rightarrow> Inl AttributeError)
          else Inr (method_spec', st\<lparr>errors := errs\<rparr>))"

text \<open>\<^verbatim>\<open>parse_patch_method\<close> works on the document itself.\<close>

definition patch_sentence :: string where
  "patch_sentence =
     ''\<newline>\<newline>The difference between `PUT` and `PATCH` is that you do not have to send all of the ''
     @ ''record'' @ [CHR 0x27] @ ''s data in order to update it. Therefore, treat all of the Update schema as optional.''"

definition parse_patch_method :: "state \<Rightarrow> py_error + state" where
  "parse_patch_method st =
     (case map_of (paths st) (url st) of
        None \<Rightarrow> Inl KeyError
      | Some url_spec \<Rightarrow>
          (case map_of url_spec ''put'' of
             None \<Rightarrow> Inr (st\<lparr>errors := True\<rparr>)
           | Some put_spec \<Rightarrow>
               (case map_of put_spec (KStr ''description'') of
                  None \<Rightarrow>
                    Inr (st\<lparr>paths := dict_set (url st) (dict_set ''patch'' put_spec url_spec) (paths st),
                            errors := True\<rparr>)
                | Some description \<Rightarrow>
                    (case py_iadd_str description patch_sentence of
                       Inl err \<Rightarrow> Inl err
                     | Inr description' \<Rightarrow>
                         Inr (st\<lparr>paths :=
                                  dict_set (url st)
                                    (dict_set ''patch''
                                       (set_object (KStr ''description'') description' put_spec) url_spec)
                                    (paths st)\<rparr>)))))"

section \<open>Controllers\<close>

definition filter_line :: "string \<times> string list \<Rightarrow> string" where
  "filter_line fm =
     (case fm of (field, modifiers) \<Rightarrow>
        if 0 < length modifiers then ''- '' @ field @ '' ('' @ join '', '' modifiers @ '')''
        else ''- '' @ field)"

fun order_lines :: "nat \<Rightarrow> string list \<Rightarrow> string list" where
  "order_lines i [] = []"
| "order_lines i (field # rest) =
     (if 0 < i then ''- '' @ field else ''- '' @ field @ '' (default)'') # order_lines (i + 1) rest"

definition get_list_details :: "controller \<Rightarrow> py_error + string" where
  "get_list_details controller_class =
     (let all_filters = join ''\<newline>'' (map filter_line (search_fields controller_class));
          all_orders = join ''\<newline>'' (order_lines 0 (allowed_ordering controller_class))
      in doc_trim (
           ''\<newline>## Filtering\<newline>''
         @ ''The following fields and modifiers can be used to filter records from the list;\<newline>''
         @ ''\<newline>''
         @ all_filters @ ''\<newline>''
         @ ''\<newline>''
         @ ''To search, simply add `?search[field]=value` to include records that match the request, or `?exclude[field]=value` to\<newline>''
         @ ''exclude them. To use modifiers, simply add `?search[field__modifier]` and `?exclude[field__modifier]`\<newline>''
         @ ''\<newline>''
         @ ''## Ordering\<newline>''
         @ ''The following fields can be used to order the results of the list;\<newline>''
         @ ''\<newline>''
         @ all_orders @ ''\<newline>''
         @ ''\<newline>''
         @ ''To reverse the ordering, simply prepend a `-` character to the request. So `?order=field` orders by `field` in ascending\<newline>''
         @ ''order, while `?order=-field` orders in descending order instead.\<newline>''))"

text \<open>\<^verbatim>\<open>getattr(self.controller_mod, name, None)\<close>, for the name the docstring gives
  under \<^verbatim>\<open>controller\<close> or else the conventional one.\<close>

definition find_controller :: "env \<Rightarrow> yval \<Rightarrow> string \<Rightarrow> py_error + controller option" where
  "find_controller e explicit_controller_name conventional =
     (case explicit_controller_name of
        YNone \<Rightarrow> Inr (map_of (controller_mod e) conventional)
      | YStr name \<Rightarrow> Inr (map_of (controller_mod e) name)
      | _ \<Rightarrow> Inl TypeError)"

text \<open>The loop of \<^verbatim>\<open>parse_input_schema\<close> over \<^verbatim>\<open>Meta.validation_order\<close>. The
  result \<open>None\<close> is a \<^verbatim>\<open>return\<close> out of the loop, which leaves the schema
  unregistered. A block that is no mapping has no \<^verbatim>\<open>get\<close>: the call stands before
  the \<^verbatim>\<open>try\<close>, so its \<^verbatim>\<open>AttributeError\<close> is not caught.\<close>

fun input_fields ::
  "controller \<Rightarrow> string \<Rightarrow> string list \<Rightarrow> string list \<Rightarrow> ydict \<Rightarrow> state
     \<Rightarrow> py_error + ((string list \<times> ydict) option \<times> state)" where
  "input_fields c meth [] required properties st = Inr (Some (required, properties), st)"
| "input_fields c meth (field # rest) required properties st =
     (case map_of (validators c) (''validate_'' @ field) of
        None \<Rightarrow> input_fields c meth rest required properties (st\<lparr>errors := True\<rparr>)
      | Some validator \<Rightarrow>
          let st1 = ensure_flag validator st in
          (case safe_load validator of
             ScannerError \<Rightarrow> input_fields c meth rest required properties (st1\<lparr>errors := True\<rparr>)
           | OtherYamlError \<Rightarrow> Inl YamlError
           | Loaded (YDict field_data) \<Rightarrow>
               if truthy (case map_of field_data (KStr ''generative'') of
                            None \<Rightarrow> YBool False | Some g \<Rightarrow> g)
               then input_fields c meth rest required properties st1
               else
                 let is_required = truthy (case map_of field_data (KStr ''required'') of
                                             None \<Rightarrow> YBool True | Some r \<Rightarrow> r);
                     field_data' = dict_del (KStr ''required'') field_data;
                     required' = (if is_required \<and> meth \<noteq> ''patch'' then required @ [field]
                                  else required)
                 in
                   if \<not> (has_key (KStr ''description'') field_data' \<and> has_key (KStr ''type'') field_data')
                      \<and> \<not> has_key (KStr ''$ref'') field_data'
                   then Inr (None, st1\<lparr>errors := True\<rparr>)
                   else input_fields c meth rest required'
                          (dict_set (KStr field) (YDict field_data') properties) st1
           | Loaded _ \<Rightarrow> Inl AttributeError))"

definition request_body :: "string \<Rightarrow> string \<Rightarrow> yval" where
  "request_body operation schema_name =
     YDict [(KStr ''description'', YStr (''Data required to '' @ operation @ '' a record'')),
            (KStr ''required'', YBool True),
            (KStr ''content'', YDict [
               (KStr ''application/json'', YDict [
                  (KStr ''schema'', YDict [
                     (KStr ''$ref'', YStr (''#/components/schemas/'' @ schema_name))])])])]"

definition input_schema :: "string list \<Rightarrow> ydict \<Rightarrow> yval" where
  "input_schema required properties =
     (if required = [] then
        YDict [(KStr ''type'', YStr ''object''), (KStr ''properties'', YDict properties)]
      else
        YDict [(KStr ''type'', YStr ''object''), (KStr ''required'', YList (map YStr required)),
               (KStr ''properties'', YDict properties)])"

definition parse_input_schema :: "controller \<Rightarrow> ydict \<Rightarrow> state \<Rightarrow> py_error + (ydict \<times> state)" where
  "parse_input_schema controller_class method_spec st =
     (let controller_name = ctrl_name controller_class;
          schema_name = replace controller_name ''Controller'' '''';
          operation = (if contains schema_name ''Create'' then ''create'' else ''update'');
          method_spec' = dict_set (KStr ''requestBody'') (request_body operation schema_name) method_spec
      in (case input_fields controller_class (method_name st) (validation_order controller_class)
                  [] [] st of
            Inl err \<Rightarrow> Inl err
          | Inr (None, st') \<Rightarrow> Inr (method_spec', st')
          | Inr (Some (required, properties), st') \<Rightarrow>
              Inr (method_spec',
                   st'\<lparr>schemas := dict_set schema_name (input_schema required properties) (schemas st')\<rparr>)))"

text \<open>\<^verbatim>\<open>self.method_spec['parameters'] += defaults.DEFAULT_LIST_PARAMETERS\<close>.\<close>

definition add_list_parameters :: "yval list \<Rightarrow> ydict \<Rightarrow> py_error + ydict" where
  "add_list_parameters defaults method_spec =
     (let method_spec' = setdefault (KStr ''parameters'') (YList []) method_spec in
      case map_of method_spec' (KStr ''parameters'') of
        None \<Rightarrow> Inl KeyError
      | Some parameters \<Rightarrow>
          (case content parameters of
             YList ps \<Rightarrow> Inr (set_object (KStr ''parameters'') (YList (ps @ defaults)) method_spec')
           | _ \<Rightarrow> Inl TypeError))"
section \<open>Default data\<close>

text \<open>The constants of \<^verbatim>\<open>docgen/defaults.py\<close>.\<close>

definition default_info :: ydict where
  "default_info = [(KStr ''contact'', YDict [
      (KStr ''email'', YStr ''developers@cloudcix.com'')])]"

definition default_responses :: "(string \<times> yval) list" where
  "default_responses = [
    (''400'', YDict [
        (KStr ''description'', YStr ''Input data was invalid''),
        (KStr ''content'', YDict [
          (KStr ''application/json'', YDict [
            (KStr ''schema'', YDict [
              (KStr ''oneOf'', YList [
                YDict [
                  (KStr ''$ref'', YStr ''#/components/schemas/Error'')],
                YDict [
                  (KStr ''$ref'', YStr ''#/components/schemas/MultiError'')]])])])])]),
    (''401'', YDict [
        (KStr ''description'', YStr ''No / invalid token provided''),
        (KStr ''content'', YDict [
          (KStr ''application/json'', YDict [
            (KStr ''schema'', YDict [
              (KStr ''type'', YStr ''object''),
              (KStr ''properties'', YDict [
                (KStr ''detail'', YDict [
                  (KStr ''type'', YStr ''string''),
                  (KStr ''description'', YStr ''Verbose error message explaining the error'')])])])])])]),
    (''403'', YDict [
        (KStr ''description'', YStr ''Permission denied for this user''),
        (KStr ''content'', YDict [
          (KStr ''application/json'', YDict [
            (KStr ''schema'', YDict [
              (KStr ''$ref'', YStr ''#/components/schemas/Error'')])])])]),
    (''404'', YDict [
        (KStr ''description'', YStr ''One of the specified resources could not be found''),
        (KStr ''content'', YDict [
          (KStr ''application/json'', YDict [
            (KStr ''schema'', YDict [
              (KStr ''$ref'', YStr ''#/components/schemas/Error'')])])])])]"

definition default_schemas :: "(string \<times> yval) list" where
  "default_schemas = [
    (''ListMetadata'', YDict [
        (KStr ''type'', YStr ''object''),
        (KStr ''required'', YList [
          YStr ''total_records'',
          YStr ''page'',
          YStr ''limit'',
          YStr ''order'',
          YStr ''warnings'']),
        (KStr ''properties'', YDict [
          (KStr ''total_records'', YDict [
            (KStr ''type'', YStr ''integer''),
            (KStr ''description'', YStr ''The total number of records found for the given search'')]),
          (KStr ''page'', YDict [
            (KStr ''type'', YStr ''integer''),
            (KStr ''description'', YStr ''The value of page that was used for the request'')]),
          (KStr ''limit'', YDict [
            (KStr ''type'', YStr ''integer''),
            (KStr ''description'', YStr ''The value of limit that was used for the request'')]),
          (KStr ''order'', YDict [
            (KStr ''type'', YStr ''string''),
            (KStr ''description'', YStr ''The value of order that was used for the request'')]),
          (KStr ''warnings'', YDict [
            (KStr ''type'', YStr ''array''),
            (KStr ''items'', YDict [
              (KStr ''type'', YStr ''string'')]),
            (KStr ''description'', YStr ''A list of warnings generated during execution. Any invalid search filters used will cause a warning to be generated, for example.'')])])]),
    (''Error'', YDict [
        (KStr ''type'', YStr ''object''),
        (KStr ''required'', YList [
          YStr ''error_code'',
          YStr ''detail'']),
        (KStr ''properties'', YDict [
          (KStr ''error_code'', YDict [
            (KStr ''type'', YStr ''string''),
            (KStr ''description'', YStr ''CloudCIX error code for the error'')]),
          (KStr ''detail'', YDict [
            (KStr ''type'', YStr ''string''),
            (KStr ''description'', YStr ''Verbose version of the error message'')])])]),
    (''MultiError'', YDict [
        (KStr ''description'', YStr ''A map of field names to Error objects representing an error that was found with the data supplied for that field''),
        (KStr ''type'', YStr ''object''),
        (KStr ''required'', YList [
          YStr ''errors'']),
        (KStr ''properties'', YDict [
          (KStr ''errors'', YDict [
            (KStr ''type'', YStr ''object''),
            (KStr ''additionalProperties'', YDict [
              (KStr ''$ref'', YStr ''#/components/schemas/Error'')])])])])]"

definition default_security_schemes :: yval where
  "default_security_schemes = YDict [
      (KStr ''XAuthToken'', YDict [
        (KStr ''type'', YStr ''apiKey''),
        (KStr ''in'', YStr ''header''),
        (KStr ''name'', YStr ''X-Auth-Token'')])]"

definition default_security :: yval where
  "default_security = YList [
      YDict [
        (KStr ''XAuthToken'', YList [])]]"

definition DEFAULT_LIST_PARAMETERS :: "yval list" where
  "DEFAULT_LIST_PARAMETERS = [
    YDict [
      (KStr ''name'', YStr ''exclude''),
      (KStr ''in'', YStr ''query''),
      (KStr ''description'', YStr ''Filter the result to objects that do not match the specified filters. Possible filters are outlined in the individual list method descriptions.''),
      (KStr ''required'', YBool False),
      (KStr ''schema'', YDict [
        (KStr ''type'', YStr ''object'')]),
      (KStr ''style'', YStr ''deepObject''),
      (KStr ''explode'', YBool True)],
    YDict [
      (KStr ''name'', YStr ''limit''),
      (KStr ''in'', YStr ''query''),
      (KStr ''description'', YStr ''The limit of the number of objects returned per page''),
      (KStr ''required'', YBool False),
      (KStr ''schema'', YDict [
        (KStr ''type'', YStr ''number''),
        (KStr ''minimum'', YInt 0),
        (KStr ''maximum'', YInt 100),
        (KStr ''default'', YInt 50)])],
    YDict [
      (KStr ''name'', YStr ''order''),
      (KStr ''in'', YStr ''query''),
      (KStr ''description'', YStr ''The field to use for ordering. Possible fields and the default are outlined in the individual method descriptions.''),
      (KStr ''required'', YBool False),
      (KStr ''schema'', YDict [
        (KStr ''type'', YStr ''string'')])],
    YDict [
      (KStr ''name'', YStr ''page''),
      (KStr ''in'', YStr ''query''),
      (KStr ''description'', YStr ''The page of records to return, assuming `limit` number of records per page.''),
      (KStr ''required'', YBool False),
      (KStr ''schema'', YDict [
        (KStr ''type'', YStr ''number''),
        (KStr ''minimum'', YInt 0),
        (KStr ''default'', YInt 0)])],
    YDict [
      (KStr ''name'', YStr ''search''),
      (KStr ''in'', YStr ''query''),
      (KStr ''description'', YStr ''Filter the result to objects that match the specified filters. Possible filters are outlined in the individual list method descriptions.''),
      (KStr ''required'', YBool False),
      (KStr ''schema'', YDict [
        (KStr ''type'', YStr ''object'')]),
      (KStr ''style'', YStr ''deepObject''),
      (KStr ''explode'', YBool True)]]"

section \<open>Permissions\<close>

definition METHOD_NAME_MAP :: "(string \<times> string) list" where
  "METHOD_NAME_MAP =
     [(''put'', ''update''), (''patch'', ''update''), (''delete'', ''delete''), (''post'', ''create'')]"

definition get_permission_details :: "string option \<Rightarrow> state \<Rightarrow> py_error + (string \<times> state)" where
  "get_permission_details permission_doc st =
     (case ensure_docstring permission_doc st of
        Inl err \<Rightarrow> Inl err
      | Inr (perm_doc, st') \<Rightarrow>
          if contains perm_doc '' -'' then Inr ([], st'\<lparr>errors := True\<rparr>)
          else (case doc_trim (''\<newline>## Permissions\<newline>'' @ perm_doc @ ''\<newline>'') of
                  Inl err \<Rightarrow> Inl err
                | Inr text \<Rightarrow> Inr (text, st')))"

text \<open>In \<^verbatim>\<open>self.method_spec['description'] += ...\<close> the old value is read before the
  right-hand side is evaluated: a missing description is a \<^verbatim>\<open>KeyError\<close>, which
  \<^verbatim>\<open>parse_permissions\<close> does not catch; so is a method name outside
  \<^verbatim>\<open>METHOD_NAME_MAP\<close>.\<close>

definition parse_permissions :: "env \<Rightarrow> ydict \<Rightarrow> state \<Rightarrow> py_error + (ydict \<times> state)" where
  "parse_permissions e method_spec st =
     (case map_of (permission_files e) (lower (model_name st)) of
        None \<Rightarrow> Inr (method_spec, st)
      | Some permissions \<Rightarrow>
          (case (if method_name st = ''get''
                 then Inr (if get_is_list st then ''list'' else ''read'')
                 else (case map_of METHOD_NAME_MAP (method_name st) of
                         None \<Rightarrow> Inl KeyError
                       | Some name \<Rightarrow> Inr name)) of
             Inl err \<Rightarrow> Inl err
           | Inr perm_method_name \<Rightarrow>
               (case map_of permissions perm_method_name of
                  None \<Rightarrow> Inr (method_spec, st)
                | Some permission_doc \<Rightarrow>
                    (case map_of method_spec (KStr ''description'') of
                       None \<Rightarrow> Inl KeyError
                     | Some description \<Rightarrow>
                         (case get_permission_details permission_doc st of
                            Inl err \<Rightarrow> Inl err
                          | Inr (details, st') \<Rightarrow>
                              (case py_iadd_str description (''\<newline>\<newline>'' @ details) of
                                 Inl err \<Rightarrow> Inl err
                               | Inr description' \<Rightarrow>
                                   Inr (set_object (KStr ''description'') description' method_spec,
                                        st')))))))"

section \<open>Controller-derived content\<close>

definition parse_controller :: "env \<Rightarrow> yval \<Rightarrow> ydict \<Rightarrow> state \<Rightarrow> py_error + (ydict \<times> state)" where
  "parse_controller e explicit_controller_name method_spec st =
     (if method_name st = ''get'' \<and> get_is_list st then
        (case find_controller e explicit_controller_name (model_name st @ ''ListController'') of
           Inl err \<Rightarrow> Inl err
         | Inr None \<Rightarrow>
             (case add_list_parameters DEFAULT_LIST_PARAMETERS method_spec of
                Inl err \<Rightarrow> Inl err
              | Inr method_spec' \<Rightarrow> Inr (method_spec', st))
         | Inr (Some controller_class) \<Rightarrow>
             (case map_of method_spec (KStr ''description'') of
                None \<Rightarrow> Inr (method_spec, st\<lparr>errors := True\<rparr>)
              | Some description \<Rightarrow>
                  (case get_list_details controller_class of
                     Inl err \<Rightarrow> Inl err
                   | Inr details \<Rightarrow>
                       (case py_iadd_str description (''\<newline>\<newline>'' @ details) of
                          Inl err \<Rightarrow> Inl err
                        | Inr description' \<Rightarrow>
                            (case add_list_parameters DEFAULT_LIST_PARAMETERS
                                    (set_object (KStr ''description'') description' method_spec) of
                               Inl err \<Rightarrow> Inl err
                             | Inr method_spec' \<Rightarrow> Inr (method_spec', st))))))
      else if method_name st \<in> set [''post'', ''put''] then
        (case find_controller e explicit_controller_name
                (model_name st @ (if method_name st = ''post'' then ''Create'' else ''Update'')
                   @ ''Controller'') of
           Inl err \<Rightarrow> Inl err
         | Inr None \<Rightarrow> Inr (method_spec, st)
         | Inr (Some controller_class) \<Rightarrow> parse_input_schema controller_class method_spec st)
      else Inr (method_spec, st))"

section \<open>Response normalization\<close>

definition DEFAULT_RESPONSE_DESCRIPTIONS :: "(string \<times> string) list" where
  "DEFAULT_RESPONSE_DESCRIPTIONS =
     [(''200'', ''OK''),
      (''201'', ''Created''),
      (''204'', ''No Content''),
      (''400'', ''Input data was invalid''),
      (''401'', ''No or invalid token provided''),
      (''403'', ''No permission for user''),
      (''404'', ''One of the resources specified could not be found'')]"

text \<open>\<^verbatim>\<open>len(x) == 0\<close>.\<close>

fun py_len_is_zero :: "yval \<Rightarrow> py_error + bool" where
  "py_len_is_zero (YDict d) = Inr (d = [])"
| "py_len_is_zero (YList xs) = Inr (xs = [])"
| "py_len_is_zero (YStr s) = Inr (s = [])"
| "py_len_is_zero YNone = Inl TypeError"
| "py_len_is_zero (YBool b) = Inl TypeError"
| "py_len_is_zero (YInt i) = Inl TypeError"
| "py_len_is_zero (YShared i v) = py_len_is_zero v"

text \<open>\<^verbatim>\<open>x['key'] = v\<close> for a string key: the content of the object afterwards.\<close>

fun py_setitem :: "yval \<Rightarrow> string \<Rightarrow> yval \<Rightarrow> py_error + yval" where
  "py_setitem (YDict d) k v = Inr (YDict (dict_set (KStr k) v d))"
| "py_setitem (YList xs) k v = Inl TypeError"
| "py_setitem (YStr s) k v = Inl TypeError"
| "py_setitem YNone k v = Inl TypeError"
| "py_setitem (YBool b) k v = Inl TypeError"
| "py_setitem (YInt i) k v = Inl TypeError"
| "py_setitem (YShared i x) k v = py_setitem x k v"

definition default_content :: "string \<Rightarrow> yval" where
  "default_content ref =
     YDict [(KStr ''application/json'', YDict [(KStr ''schema'', YDict [(KStr ''$ref'', YStr ref)])])]"

text \<open>Dropping the keys whose value is \<^verbatim>\<open>'none'\<close>; only a mapping has
  \<^verbatim>\<open>keys\<close>.\<close>

fun drop_none :: "yval \<Rightarrow> py_error + yval" where
  "drop_none (YDict d) = Inr (YDict (filter (\<lambda>p. snd p \<noteq> YStr ''none'') d))"
| "drop_none (YList xs) = Inl AttributeError"
| "drop_none (YStr s) = Inl AttributeError"
| "drop_none YNone = Inl AttributeError"
| "drop_none (YBool b) = Inl AttributeError"
| "drop_none (YInt i) = Inl AttributeError"
| "drop_none (YShared i v) = drop_none v"

text \<open>One turn of the loop of \<^verbatim>\<open>install_default_response_data\<close>, in its three
  steps (the description, the content, the keys to drop): what \<^verbatim>\<open>responses[code]\<close>
  is afterwards.\<close>

definition with_description :: "ykey \<Rightarrow> yval \<Rightarrow> py_error + yval" where
  "with_description code details =
     (case py_in ''description'' details of
        Inl err \<Rightarrow> Inl err
      | Inr True \<Rightarrow> Inr details
      | Inr False \<Rightarrow>
          py_setitem details ''description''
            (YStr (case map_of DEFAULT_RESPONSE_DESCRIPTIONS (py_str code) of
                     None \<Rightarrow> ''none'' | Some d \<Rightarrow> d)))"

definition with_content :: "state \<Rightarrow> ykey \<Rightarrow> yval \<Rightarrow> py_error + yval" where
  "with_content st code details =
     (case py_in ''content'' details of
        Inl err \<Rightarrow> Inl err
      | Inr True \<Rightarrow> Inr details
      | Inr False \<Rightarrow>
          if py_str code = ''201'' \<or>
             (py_str code = ''200'' \<and> (method_name st \<noteq> ''get'' \<or> \<not> get_is_list st))
          then py_setitem details ''content''
                 (default_content (''#/components/schemas/'' @ model_name st @ ''Response''))
          else if py_str code = ''200'' \<and> method_name st = ''get'' \<and> get_is_list st
          then py_setitem details ''content''
                 (default_content (''#/components/schemas/'' @ model_name st @ ''List''))
          else Inr details)"

definition normalise_response :: "state \<Rightarrow> ykey \<Rightarrow> yval \<Rightarrow> py_error + yval" where
  "normalise_response st code details =
     (case py_str code of
        [] \<Rightarrow> Inl IndexError
      | c0 # _ \<Rightarrow>
          (case (if c0 = CHR ''4'' then py_len_is_zero details else Inr False) of
             Inl err \<Rightarrow> Inl err
           | Inr True \<Rightarrow> Inr (YDict [(KStr ''$ref'', YStr (''#/components/responses/'' @ py_str code))])
           | Inr False \<Rightarrow>
               (case with_description code details of
                  Inl err \<Rightarrow> Inl err
                | Inr details1 \<Rightarrow>
                    (case with_content st code details1 of
                       Inl err \<Rightarrow> Inl err
                     | Inr details2 \<Rightarrow> drop_none details2))))"

text \<open>The first branch of the loop body binds the code to a new object
  (\<^verbatim>\<open>responses[code] = {...}\<close>); every other write goes to the object \<^verbatim>\<open>details\<close>
  itself.\<close>

definition reuses_default :: "ykey \<Rightarrow> yval \<Rightarrow> bool" where
  "reuses_default code details =
     (case py_str code of
        [] \<Rightarrow> False
      | c0 # _ \<Rightarrow> c0 = CHR ''4'' \<and> py_len_is_zero details = Inr True)"

text \<open>\<^verbatim>\<open>self.method_spec['responses']\<close>, which has to be a mapping for
  \<^verbatim>\<open>items\<close> and for the assignments.\<close>

definition responses_of :: "ydict \<Rightarrow> py_error + ydict" where
  "responses_of method_spec =
     (case map_of method_spec (KStr ''responses'') of
        None \<Rightarrow> Inl KeyError
      | Some responses \<Rightarrow>
          (case content responses of
             YDict rs \<Rightarrow> Inr rs
           | _ \<Rightarrow> Inl AttributeError))"

text \<open>The loop of \<^verbatim>\<open>install_default_response_data\<close> over the codes of the responses,
  on the method's dictionary. The loop assigns to keys that exist and removes none, so
  the codes are those of the start; \<^verbatim>\<open>details\<close> is the value of the code when its
  turn comes, after the changes of the turns before. A change of \<^verbatim>\<open>details\<close> is
  seen wherever the method's dictionary holds the same object.\<close>

fun normalise_responses :: "state \<Rightarrow> ykey list \<Rightarrow> ydict \<Rightarrow> py_error + ydict" where
  "normalise_responses st [] method_spec = Inr method_spec"
| "normalise_responses st (code # codes) method_spec =
     (case responses_of method_spec of
        Inl err \<Rightarrow> Inl err
      | Inr responses \<Rightarrow>
          (case map_of responses code of
             None \<Rightarrow> Inl KeyError
           | Some details \<Rightarrow>
               (case normalise_response st code details of
                  Inl err \<Rightarrow> Inl err
                | Inr details' \<Rightarrow>
                    normalise_responses st codes
                      (if reuses_default code details then
                         set_object (KStr ''responses'') (YDict (dict_set code details' responses))
                           method_spec
                       else
                         (case details of
                            YShared i v \<Rightarrow> assign_dict i details' method_spec
                          | _ \<Rightarrow>
                              set_object (KStr ''responses'')
                                (YDict (dict_set code details' responses)) method_spec)))))"

definition install_default_response_data :: "ydict \<Rightarrow> state \<Rightarrow> py_error + ydict" where
  "install_default_response_data method_spec st =
     (let method_spec' = setdefault (KStr ''responses'') (YDict []) method_spec in
      case responses_of method_spec' of
        Inl err \<Rightarrow> Inl err
      | Inr responses \<Rightarrow>
          (case normalise_responses st (map fst responses) method_spec' of
             Inl err \<Rightarrow> Inl err
           | Inr method_spec2 \<Rightarrow>
               (case responses_of method_spec2 of
                  Inl err \<Rightarrow> Inl err
                | Inr responses' \<Rightarrow>
                    Inr (set_object (KStr ''responses'')
                           (YDict (dict_set (KInt 401)
                                     (YDict [(KStr ''$ref'', YStr ''#/components/responses/401'')])
                                     responses'))
                           method_spec2))))"

section \<open>Handlers\<close>

definition HTTP_METHOD_NAMES :: "string list" where
  "HTTP_METHOD_NAMES = [''get'', ''post'', ''put'', ''patch'', ''delete'']"

text \<open>\<^verbatim>\<open>d.pop(key, default)\<close> on the method's dictionary.\<close>

definition pop_default :: "ykey \<Rightarrow> yval \<Rightarrow> ydict \<Rightarrow> yval \<times> ydict" where
  "pop_default k v d = (case map_of d k of None \<Rightarrow> v | Some x \<Rightarrow> x, dict_del k d)"

text \<open>\<^verbatim>\<open>parse_view_method\<close> after the patch case: from the docstring to the
  normalized responses.\<close>

definition method_body :: "env \<Rightarrow> view_method \<Rightarrow> ydict \<Rightarrow> state \<Rightarrow> py_error + (ydict \<times> state)" where
  "method_body e method method_spec st =
     (let st1 = ensure_flag (meth_doc method) st in
      case safe_load (meth_doc method) of
        ScannerError \<Rightarrow> Inr (method_spec, st1\<lparr>errors := True\<rparr>)
      | OtherYamlError \<Rightarrow> Inl YamlError
      | Loaded (YDict method_doc) \<Rightarrow>
          if \<not> (has_key (KStr ''summary'') method_doc \<and> has_key (KStr ''description'') method_doc
                \<and> has_key (KStr ''responses'') method_doc)
          then Inr (method_spec, st1\<lparr>errors := True\<rparr>)
          else
            (case pop_default (KStr ''path_params'') (YDict []) (dict_update method_spec method_doc) of
               (path_params, method_spec1) \<Rightarrow>
                 (case parse_path_params path_params method_spec1 st1 of
                    Inl err \<Rightarrow> Inl err
                  | Inr (method_spec2, st2) \<Rightarrow>
                      (case pop_default (KStr ''controller'') YNone method_spec2 of
                         (controller_name, method_spec3) \<Rightarrow>
                           (case parse_controller e controller_name method_spec3 st2 of
                              Inl err \<Rightarrow> Inl err
                            | Inr (method_spec4, st3) \<Rightarrow>
                                (case parse_permissions e method_spec4 st3 of
                                   Inl err \<Rightarrow> Inl err
                                 | Inr (method_spec5, st4) \<Rightarrow>
                                     (case install_default_response_data method_spec5 st4 of
                                        Inl err \<Rightarrow> Inl err
                                      | Inr method_spec6 \<Rightarrow> Inr (method_spec6, st4)))))))
      | Loaded _ \<Rightarrow> Inl AttributeError)"

definition store_method_spec :: "ydict \<Rightarrow> state \<Rightarrow> state" where
  "store_method_spec method_spec st =
     st\<lparr>paths := dict_set (url st)
                   (dict_set (method_name st) method_spec
                      (case map_of (paths st) (url st) of None \<Rightarrow> [] | Some url_spec \<Rightarrow> url_spec))
                   (paths st)\<rparr>"

definition parse_view_method :: "env \<Rightarrow> view_method \<Rightarrow> state \<Rightarrow> py_error + state" where
  "parse_view_method e method st =
     (case map_of (paths st) (url st) of
        None \<Rightarrow> Inl KeyError
      | Some url_spec \<Rightarrow>
          let method_spec = [(KStr ''tags'', YList [YStr (tag st)])];
              st0 = store_method_spec method_spec st
          in if method_name st = ''patch'' then parse_patch_method st0
             else (case method_body e method method_spec st0 of
                     Inl err \<Rightarrow> Inl err
                   | Inr (method_spec', st1) \<Rightarrow> Inr (store_method_spec method_spec' st1)))"

fun view_methods :: "env \<Rightarrow> view_class \<Rightarrow> string list \<Rightarrow> state \<Rightarrow> py_error + state" where
  "view_methods e vc [] st = Inr st"
| "view_methods e vc (name # names) st =
     (case map_of (methods vc) name of
        None \<Rightarrow> view_methods e vc names st
      | Some method \<Rightarrow>
          (case parse_view_method e method (st\<lparr>method_name := meth_name method\<rparr>) of
             Inl err \<Rightarrow> Inl err
           | Inr st' \<Rightarrow> view_methods e vc names st'))"

definition parse_view_class :: "nat \<Rightarrow> env \<Rightarrow> view_class \<Rightarrow> state \<Rightarrow> py_error + state" where
  "parse_view_class limit e vc st =
     (let st1 = st\<lparr>get_is_list := contains (class_name vc) ''Collection'',
                    model_name := replace (replace (class_name vc) ''Collection'' []) ''Resource'' []\<rparr>;
          serializer = (case serializer_class vc of
                          None \<Rightarrow> map_of (serializer_mod e) (model_name st1 @ ''Serializer'')
                        | Some s \<Rightarrow> Some s)
      in case parse_serializer limit e serializer st1 of
           Inl err \<Rightarrow> Inl err
         | Inr st2 \<Rightarrow> view_methods e vc HTTP_METHOD_NAMES st2)"

section \<open>Routes, tags and the module\<close>

definition get_service_name :: "string \<Rightarrow> string" where
  "get_service_name path =
     capitalise (replace (replace (last (split_on CHR ''/'' path)) ''.py'' []) ''_'' '' '')"

definition get_tag_name :: "source_file \<Rightarrow> string" where
  "get_tag_name service_file = get_service_name (file_path service_file)"

definition parse_urlpattern :: "nat \<Rightarrow> env \<Rightarrow> urlpattern \<Rightarrow> state \<Rightarrow> py_error + state" where
  "parse_urlpattern limit e up st =
     (let parts = split_on CHR ''.'' (lookup_str up);
          view_class_name = last parts;
          view_file_str = join ''.'' (butlast parts);
          st1 = st\<lparr>url := get_url (pattern up)\<rparr>;
          st2 = st1\<lparr>paths := dict_set (url st1) [] (paths st1)\<rparr>
      in case map_of (modules e) view_file_str of
           None \<Rightarrow> Inl ModuleNotFoundError
         | Some service_file \<Rightarrow>
             (case map_of (view_module e) view_class_name of
                None \<Rightarrow> Inl AttributeError
              | Some vc \<Rightarrow> parse_view_class limit e vc (st2\<lparr>tag := get_tag_name service_file\<rparr>)))"

definition parse_view_file :: "source_file \<Rightarrow> state \<Rightarrow> py_error + state" where
  "parse_view_file view_file st =
     (case ensure_docstring (file_doc view_file) st of
        Inl err \<Rightarrow> Inl err
      | Inr (doc, st') \<Rightarrow>
          Inr (st'\<lparr>tags := tags st' @
                  [YDict [(KStr ''name'', YStr (get_tag_name view_file)),
                          (KStr ''description'', YStr (strip doc))]]\<rparr>))"

definition parse_module :: "env \<Rightarrow> state \<Rightarrow> py_error + state" where
  "parse_module e st =
     (let st1 = st\<lparr>info := dict_set (KStr ''title'') (YStr (capitalise (module_name e))) (info st)\<rparr> in
      case version e of
        None \<Rightarrow> Inr (st1\<lparr>errors := True\<rparr>)
      | Some v \<Rightarrow>
          if length (split_on CHR ''.'' v) \<noteq> 3 then Inr (st1\<lparr>errors := True\<rparr>)
          else
            (case ensure_docstring (module_doc e)
                    (st1\<lparr>info := dict_set (KStr ''version'') (YStr v) (info st1)\<rparr>) of
               Inl err \<Rightarrow> Inl err
             | Inr (doc, st2) \<Rightarrow>
                 Inr (st2\<lparr>info := dict_set (KStr ''description'') (YStr (strip doc)) (info st2),
                          servers := Some (YList [YDict [
                            (KStr ''url'', YStr (''https://'' @ module_name e @ ''.api.cloudcix.com/''))]]),
                          externalDocs := Some (YDict [
                            (KStr ''description'', YStr ''View Docs in JSON format''),
                            (KStr ''url'', YStr (''https://'' @ module_name e
                                                  @ ''.api.cloudcix.com/documentation/''))])\<rparr>)))"

fun view_files_loop :: "source_file list \<Rightarrow> state \<Rightarrow> py_error + state" where
  "view_files_loop [] st = Inr st"
| "view_files_loop (view_file # rest) st =
     (case parse_view_file view_file st of
        Inl err \<Rightarrow> Inl err
      | Inr st' \<Rightarrow> view_files_loop rest st')"

fun urlpatterns_loop :: "nat \<Rightarrow> env \<Rightarrow> urlpattern list \<Rightarrow> state \<Rightarrow> py_error + state" where
  "urlpatterns_loop limit e [] st = Inr st"
| "urlpatterns_loop limit e (up # rest) st =
     (case parse_urlpattern limit e up st of
        Inl err \<Rightarrow> Inl err
      | Inr st' \<Rightarrow> urlpatterns_loop limit e rest st')"

text \<open>The command object when \<^verbatim>\<open>handle\<close> starts: \<^verbatim>\<open>defaults.DEFAULT_SPEC\<close> and no
  working references.\<close>

definition initial_state :: state where
  "initial_state =
     \<lparr>errors = False, info = default_info, tags = [], paths = [], schemas = default_schemas,
      servers = None, externalDocs = None, model_name = [], method_name = [], url = [],
      tag = [], get_is_list = False\<rparr>"

text \<open>\<^verbatim>\<open>handle\<close> up to the check of the error flag. \<open>limit\<close> is the room of the
  interpreter's stack for nested calls of \<^verbatim>\<open>parse_serializer\<close>.\<close>

definition handle :: "nat \<Rightarrow> env \<Rightarrow> py_error + state" where
  "handle limit e =
     (case parse_module e initial_state of
        Inl err \<Rightarrow> Inl err
      | Inr st1 \<Rightarrow>
          (case view_files_loop (view_files e) st1 of
             Inl err \<Rightarrow> Inl err
           | Inr st2 \<Rightarrow> urlpatterns_loop limit e (urlpatterns e) st2))"

text \<open>The document that \<^verbatim>\<open>json.dump\<close> is given.\<close>

definition document :: "state \<Rightarrow> yval" where
  "document st =
     YDict ([(KStr ''openapi'', YStr ''3.0.0''),
             (KStr ''info'', YDict (info st)),
             (KStr ''tags'', YList (tags st)),
             (KStr ''security'', default_security),
             (KStr ''paths'',
                YDict (map (\<lambda>(u, url_spec).
                         (KStr u, YDict (map (\<lambda>(m, method_spec). (KStr m, YDict method_spec)) url_spec)))
                       (paths st))),
             (KStr ''components'', YDict [
                (KStr ''responses'', YDict (map (\<lambda>(n, r). (KStr n, r)) default_responses)),
                (KStr ''securitySchemes'', default_security_schemes),
                (KStr ''schemas'', YDict (map (\<lambda>(n, s). (KStr n, s)) (schemas st)))])]
            @ (case servers st of None \<Rightarrow> [] | Some s \<Rightarrow> [(KStr ''servers'', s)])
            @ (case externalDocs st of None \<Rightarrow> [] | Some d \<Rightarrow> [(KStr ''externalDocs'', d)]))"

text \<open>The run ends with exit code 1 and writes nothing when the error flag is set.\<close>

definition written :: "nat \<Rightarrow> env \<Rightarrow> yval option" where
  "written limit e =
     (case handle limit e of
        Inl err \<Rightarrow> None
      | Inr st \<Rightarrow> if errors st then None else Some (document st))"

section \<open>References of the output document\<close>

text \<open>Every value stored under a \<^verbatim>\<open>$ref\<close> key, at any depth.\<close>

definition ref_at :: "ykey \<Rightarrow> yval \<Rightarrow> string list" where
  "ref_at k v = (if k = KStr ''$ref'' then (case v of YStr r \<Rightarrow> [r] | _ \<Rightarrow> []) else [])"

fun refs_of :: "yval \<Rightarrow> string list"
  and refs_of_list :: "yval list \<Rightarrow> string list"
  and refs_of_dict :: "(ykey \<times> yval) list \<Rightarrow> string list" where
  "refs_of (YDict d) = refs_of_dict d"
| "refs_of (YList xs) = refs_of_list xs"
| "refs_of (YStr s) = []"
| "refs_of (YInt i) = []"
| "refs_of (YBool b) = []"
| "refs_of YNone = []"
| "refs_of (YShared i v) = refs_of v"
| "refs_of_list [] = []"
| "refs_of_list (x # xs) = refs_of x @ refs_of_list xs"
| "refs_of_dict [] = []"
| "refs_of_dict ((k, v) # d) = ref_at k v @ refs_of v @ refs_of_dict d"

text \<open>A reference resolves when it names an entry of the components area.\<close>

definition resolves :: "state \<Rightarrow> string \<Rightarrow> bool" where
  "resolves st ref =
     (if starts_with ''#/components/schemas/'' ref
      then has_key (drop (length ''#/components/schemas/'') ref) (schemas st)
      else if starts_with ''#/components/responses/'' ref
      then has_key (drop (length ''#/components/responses/'') ref) default_responses
      else False)"
section \<open>Statements of the specification and example declarations\<close>

text \<open>Applying \<^verbatim>\<open>doc_trim\<close> to its own result.\<close>

definition doc_trim_twice :: "string \<Rightarrow> py_error + string" where
  "doc_trim_twice s = (case doc_trim s of Inl err \<Rightarrow> Inl err | Inr t \<Rightarrow> doc_trim t)"

text \<open>A docstring of one line: not empty, no tab and no line boundary in it, no white
  space at its ends.\<close>

definition one_line :: "string \<Rightarrow> bool" where
  "one_line s = (s \<noteq> [] \<and> \<not> is_space (hd s) \<and> \<not> is_space (last s)
                 \<and> list_all (\<lambda>c. c \<noteq> CHR 0x09 \<and> \<not> is_linebreak c) s)"

text \<open>A module \<^verbatim>\<open>widgets\<close> with nothing in it yet; the examples below fill it.\<close>

definition base_env :: env where
  "base_env =
     \<lparr>module_name = ''widgets'', version = Some ''1.0.0'', module_doc = Some ''Widget API'',
      view_files = [], urlpatterns = [], modules = [], view_module = [], serializer_mod = [],
      controller_mod = [], permission_files = []\<rparr>"

text \<open>A responses block is well formed when it is a mapping of its own (or absent) that
  has each code once, whose codes have a non-empty text and whose values are mappings of
  their own.\<close>

definition is_mapping :: "yval \<Rightarrow> bool" where
  "is_mapping v = (case v of YDict d \<Rightarrow> True | _ \<Rightarrow> False)"

definition responses_well_formed :: "ydict \<Rightarrow> bool" where
  "responses_well_formed method_spec =
     (case map_of method_spec (KStr ''responses'') of
        None \<Rightarrow> True
      | Some (YDict responses) \<Rightarrow>
          distinct (map fst responses)
          \<and> list_all (\<lambda>(code, details). py_str code \<noteq> [] \<and> is_mapping details) responses
      | Some _ \<Rightarrow> False)"

definition unauthorized_ref :: yval where
  "unauthorized_ref = YDict [(KStr ''$ref'', YStr ''#/components/responses/401'')]"

text \<open>The fetch-collection operation of an entity \<^verbatim>\<open>Widget\<close>, with an empty 200
  response and a 401 response of its own.\<close>

definition widget_list_state :: state where
  "widget_list_state =
     initial_state\<lparr>model_name := ''Widget'', method_name := ''get'', get_is_list := True,
                   url := ''/widget/'', tag := ''Widget''\<rparr>"

definition widget_list_spec :: ydict where
  "widget_list_spec =
     [(KStr ''tags'', YList [YStr ''Widget'']),
      (KStr ''summary'', YStr ''List widgets''),
      (KStr ''description'', YStr ''Retrieve a list of widgets.''),
      (KStr ''responses'', YDict [
         (KInt 200, YDict []),
         (KInt 401, YDict [(KStr ''description'', YStr ''Log in first'')])])]"



text \<open>The same operation with the codes written as texts,
  \<^verbatim>\<open>{'200': {}, '401': {description: Log in first}}\<close>.\<close>

definition text_code_spec :: ydict where
  "text_code_spec =
     [(KStr ''tags'', YList [YStr ''Widget'']),
      (KStr ''summary'', YStr ''List widgets''),
      (KStr ''description'', YStr ''Retrieve a list of widgets.''),
      (KStr ''responses'', YDict [
         (KStr ''200'', YDict []),
         (KStr ''401'', YDict [(KStr ''description'', YStr ''Log in first'')])])]"





text \<open>Path-parameter reconciliation as the specification words it: a placeholder is
  resolved when the declared block has an entry for it that is a mapping with a
  \<^verbatim>\<open>type\<close> other than \<^verbatim>\<open>None\<close>; the resolved placeholders, in the order of the
  path, give the parameter objects, each of them
  \<^verbatim>\<open>{in: path, required: true, name: <param>, schema: {type: <declared type>}}\<close> with
  the remaining declared keys merged in. A declared block is well formed when its keys
  are texts and its values are mappings of their own or \<^verbatim>\<open>None\<close>; the parameters an
  operation declares itself are a list of its own, when there are any.\<close>

definition parameter_object :: "string \<Rightarrow> yval \<Rightarrow> ydict \<Rightarrow> yval" where
  "parameter_object name declared_type remaining =
     YDict (foldl (\<lambda>object entry. dict_set (fst entry) (snd entry) object)
              [(KStr ''in'', YStr ''path''),
               (KStr ''required'', YBool True),
               (KStr ''name'', YStr name),
               (KStr ''schema'', YDict [(KStr ''type'', declared_type)])]
              remaining)"

definition declared_type :: "ydict \<Rightarrow> string \<Rightarrow> (yval \<times> ydict) option" where
  "declared_type path_params param =
     (case map_of path_params (KStr param) of
        Some (YDict details) \<Rightarrow>
          (case map_of details (KStr ''type'') of
             None \<Rightarrow> None
           | Some t \<Rightarrow> if t = YNone then None else Some (t, dict_del (KStr ''type'') details))
      | _ \<Rightarrow> None)"

definition expected_parameters :: "ydict \<Rightarrow> string list \<Rightarrow> yval list" where
  "expected_parameters path_params params =
     concat (map (\<lambda>p. case declared_type path_params p of
                         None \<Rightarrow> []
                       | Some (t, rest) \<Rightarrow> [parameter_object p t rest]) params)"

definition declarations_well_formed :: "ydict \<Rightarrow> bool" where
  "declarations_well_formed path_params =
     list_all (\<lambda>(k, v). (case k of KStr s \<Rightarrow> True | KInt i \<Rightarrow> False)
                        \<and> (v = YNone \<or> is_mapping v)) path_params"

definition declared_parameters :: "ydict \<Rightarrow> yval list option" where
  "declared_parameters method_spec =
     (case map_of method_spec (KStr ''parameters'') of
        None \<Rightarrow> Some []
      | Some (YList ps) \<Rightarrow> Some ps
      | Some _ \<Rightarrow> None)"

text \<open>The route \<^verbatim>\<open>/widget/<int:id>\<close> with a read operation that declares the
  path parameter \<^verbatim>\<open>id\<close> of type \<^verbatim>\<open>integer\<close>.\<close>

definition widget_read_state :: state where
  "widget_read_state =
     initial_state\<lparr>model_name := ''Widget'', method_name := ''get'', get_is_list := False,
                   url := get_url ''/widget/<int:id>'', tag := ''Widget''\<rparr>"

definition widget_read_spec :: ydict where
  "widget_read_spec =
     [(KStr ''tags'', YList [YStr ''Widget'']),
      (KStr ''summary'', YStr ''Read a widget''),
      (KStr ''description'', YStr ''Retrieve one widget.''),
      (KStr ''responses'', YDict [(KInt 200, YDict [])])]"

definition widget_read_params :: ydict where
  "widget_read_params = [(KStr ''id'', YDict [(KStr ''type'', YStr ''integer'')])]"

text \<open>The route \<^verbatim>\<open>/widget/<int:id>/part/<int:part_id>\<close> with the declarations
  \<^verbatim>\<open>{id: &p {type: integer}, part_id: *p}\<close>: one mapping, anchored at \<^verbatim>\<open>id\<close> and
  used again at \<^verbatim>\<open>part_id\<close>.\<close>

definition part_read_state :: state where
  "part_read_state =
     initial_state\<lparr>model_name := ''Part'', method_name := ''get'', get_is_list := False,
                   url := get_url ''/widget/<int:id>/part/<int:part_id>'', tag := ''Part''\<rparr>"

definition shared_params :: ydict where
  "shared_params =
     [(KStr ''id'', YShared 0 (YDict [(KStr ''type'', YStr ''integer'')])),
      (KStr ''part_id'', YShared 0 (YDict [(KStr ''type'', YStr ''integer'')]))]"

text \<open>A result with the error flag set, when there is a result.\<close>

definition with_error_flag :: "py_error + ('a \<times> state) \<Rightarrow> py_error + ('a \<times> state)" where
  "with_error_flag r = (case r of Inl err \<Rightarrow> Inl err | Inr (x, st) \<Rightarrow> Inr (x, st\<lparr>errors := True\<rparr>))"

text \<open>A field of the validation order whose validator is missing, or whose metadata
  block the YAML scanner cannot read.\<close>

definition unusable_validator :: "controller \<Rightarrow> string \<Rightarrow> bool" where
  "unusable_validator c field =
     (case map_of (validators c) (''validate_'' @ field) of
        None \<Rightarrow> True
      | Some doc \<Rightarrow> doc = Unscannable)"

text \<open>A create controller for \<^verbatim>\<open>Widget\<close> whose validation order names a field
  \<^verbatim>\<open>colour\<close> that has no validator.\<close>

definition name_validator :: docstring where
  "name_validator = Yaml (YDict [(KStr ''description'', YStr ''The name of the widget''),
                               (KStr ''type'', YStr ''string'')])"

definition size_validator :: docstring where
  "size_validator = Yaml (YDict [(KStr ''description'', YStr ''The size of the widget''),
                               (KStr ''type'', YStr ''integer''),
                               (KStr ''required'', YBool False)])"

definition widget_create_controller :: controller where
  "widget_create_controller =
     \<lparr>ctrl_name = ''WidgetCreateController'', search_fields = [], allowed_ordering = [],
      validation_order = [''name'', ''colour'', ''size''],
      validators = [(''validate_name'', name_validator), (''validate_size'', size_validator)]\<rparr>"

definition widget_create_state :: state where
  "widget_create_state =
     initial_state\<lparr>model_name := ''Widget'', method_name := ''post'', url := ''/widget/'',
                   tag := ''Widget''\<rparr>"

definition widget_create_spec :: ydict where
  "widget_create_spec =
     [(KStr ''tags'', YList [YStr ''Widget'']),
      (KStr ''summary'', YStr ''Create a widget''),
      (KStr ''description'', YStr ''Create a new widget.''),
      (KStr ''responses'', YDict [(KInt 201, YDict [])])]"

text \<open>A module whose only route goes to a handler \<^verbatim>\<open>WidgetResource\<close> with a read
  operation, and that has no field-mapping declaration for \<^verbatim>\<open>Widget\<close>.\<close>

definition widget_file :: source_file where
  "widget_file = \<lparr>file_path = ''/srv/widgets/views/widget.py'', file_doc = Some ''Widget services''\<rparr>"




text \<open>One state extends another when the current entity is the same, a raised error
  flag is still raised and no registered schema is gone.\<close>

definition extends :: "state \<Rightarrow> state \<Rightarrow> bool" where
  "extends st st' =
     (model_name st' = model_name st \<and> (errors st \<longrightarrow> errors st')
      \<and> (\<forall>k. has_key k (schemas st) \<longrightarrow> has_key k (schemas st')))"

text \<open>The fields a declaration implements, without those marked \<^verbatim>\<open>old_\<close>.\<close>

definition implemented :: "serializer \<Rightarrow> ykey set" where
  "implemented ser = KStr ` {f \<in> set (field_map ser). \<not> contains f ''old_''}"

text \<open>Field-mapping declarations for \<^verbatim>\<open>Widget\<close>: the documentation has the keys
  \<^verbatim>\<open>id\<close> and \<^verbatim>\<open>name\<close>; one declaration also implements \<^verbatim>\<open>colour\<close>, another
  implements \<^verbatim>\<open>id\<close> only.\<close>

definition widget_fields_doc :: ydict where
  "widget_fields_doc =
     [(KStr ''id'', YDict [(KStr ''description'', YStr ''The ID of the widget''),
                           (KStr ''type'', YStr ''integer'')]),
      (KStr ''name'', YDict [(KStr ''description'', YStr ''The name of the widget''),
                             (KStr ''type'', YStr ''string'')])]"

definition undocumented_serializer :: serializer where
  "undocumented_serializer =
     \<lparr>ser_name = ''WidgetSerializer'', ser_doc = Yaml (YDict widget_fields_doc),
      field_map = [''id'', ''name'', ''colour'']\<rparr>"

definition unimplemented_serializer :: serializer where
  "unimplemented_serializer =
     \<lparr>ser_name = ''WidgetSerializer'', ser_doc = Yaml (YDict widget_fields_doc),
      field_map = [''id'', ''old_id'']\<rparr>"

definition widget_entity_state :: state where
  "widget_entity_state = initial_state\<lparr>model_name := ''Widget''\<rparr>"

definition widget_serializer :: serializer where
  "widget_serializer =
     \<lparr>ser_name = ''WidgetSerializer'', ser_doc = Yaml (YDict widget_fields_doc),
      field_map = [''id'', ''name'', ''old_name'']\<rparr>"

text \<open>A module whose handler \<^verbatim>\<open>WidgetCollection\<close> has, by the naming convention, the
  field-mapping declaration \<^verbatim>\<open>WidgetSerializer\<close>, with a field \<^verbatim>\<open>parent\<close> documented
  as a reference to the schema of \<^verbatim>\<open>Widget\<close> itself.\<close>

definition self_ref_serializer :: serializer where
  "self_ref_serializer =
     \<lparr>ser_name = ''WidgetSerializer'',
      ser_doc = Yaml (YDict [
        (KStr ''id'', YDict [(KStr ''description'', YStr ''The ID of the widget''),
                             (KStr ''type'', YStr ''integer'')]),
        (KStr ''parent'', YDict [(KStr ''$ref'', YStr ''#/components/schemas/Widget'')])]),
      field_map = [''id'', ''parent'']\<rparr>"

definition widget_collection :: view_class where
  "widget_collection = \<lparr>class_name = ''WidgetCollection'', serializer_class = None, methods = []\<rparr>"

definition self_ref_env :: env where
  "self_ref_env =
     base_env\<lparr>urlpatterns := [\<lparr>lookup_str = ''widgets.views.widget.WidgetCollection'',
                                 pattern = ''widget/''\<rparr>],
              modules := [(''widgets.views.widget'', widget_file)],
              view_module := [(''WidgetCollection'', widget_collection)],
              serializer_mod := [(''WidgetSerializer'', self_ref_serializer)]\<rparr>"

section \<open>The docstring trimmer\<close>

lemmas str_defs = doc_trim_def splitlines_def expandtabs_def strip_def lstrip_def rstrip_def
  is_space_def is_linebreak_def pop_leading_blank_def pop_trailing_blank_def

lemma expandtabs_from_nonempty: "s \<noteq> [] \<Longrightarrow> expandtabs_from col s \<noteq> []"
  by (cases s) auto

lemma splitlines_from_nonempty: "s \<noteq> [] \<Longrightarrow> splitlines_from cur s \<noteq> []"
proof (induction s arbitrary: cur)
  case Nil
  then show ?case by simp
next
  case (Cons c cs)
  show ?case
  proof (cases cs)
    case Nil
    then show ?thesis by simp
  next
    case (Cons d ds)
    with Cons.IH show ?thesis by (simp split: list.splits)
  qed
qed

lemma lines_nonempty: "s \<noteq> [] \<Longrightarrow> splitlines (expandtabs s) \<noteq> []"
  by (simp add: splitlines_def expandtabs_def splitlines_from_nonempty expandtabs_from_nonempty)

text \<open>\<^verbatim>\<open>lines[0]\<close> is always there: the trimmer raises on no input.\<close>

lemma doc_trim_total: "\<exists>t. doc_trim s = Inr t"
proof (cases "s = []")
  case True
  then show ?thesis by (simp add: doc_trim_def)
next
  case False
  then obtain l ls where "splitlines (expandtabs s) = l # ls"
    using lines_nonempty [of s] by (cases "splitlines (expandtabs s)") auto
  with False show ?thesis by (simp add: doc_trim_def Let_def)
qed

lemma min_indent_blank: "\<forall>l \<in> set ls. lstrip l = [] \<Longrightarrow> min_indent ind ls = ind"
  by (induction ls arbitrary: ind) (auto simp: Let_def)

lemma doc_trim_blank:
  assumes "\<forall>line \<in> set (splitlines (expandtabs s)). lstrip line = []"
  shows "doc_trim s = Inr []"
proof (cases "s = []")
  case True
  then show ?thesis by (simp add: doc_trim_def)
next
  case False
  then obtain l ls where ls: "splitlines (expandtabs s) = l # ls"
    using lines_nonempty [of s] by (cases "splitlines (expandtabs s)") auto
  from assms ls have "lstrip l = []" by simp
  then have "strip l = []" by (simp add: strip_def rstrip_def)
  moreover from assms ls have "min_indent None (l # ls) = None"
    using min_indent_blank [of "l # ls" None] by simp
  ultimately show ?thesis
    using False ls by (simp add: doc_trim_def Let_def pop_trailing_blank_def pop_leading_blank_def)
qed

text \<open>On an input none of whose lines has a character other than white space the result
  is empty, and a second application changes nothing.\<close>

lemma doc_trim_blank_idempotent:
  assumes "\<forall>line \<in> set (splitlines (expandtabs s)). lstrip line = []"
  shows "doc_trim s = Inr [] \<and> doc_trim_twice s = doc_trim s"
  using doc_trim_blank [OF assms] by (simp add: doc_trim_twice_def doc_trim_def)

text \<open>One line.\<close>

lemma expandtabs_no_tab: "CHR 0x09 \<notin> set s \<Longrightarrow> expandtabs_from col s = s"
  by (induction s arbitrary: col) auto

lemma splitlines_no_break:
  "list_all (\<lambda>c. \<not> is_linebreak c) s \<Longrightarrow>
     splitlines_from cur s = (if cur @ s = [] then [] else [cur @ s])"
  by (induction s arbitrary: cur) (auto simp: is_linebreak_def)

lemma splitlines_first_line:
  "list_all (\<lambda>c. \<not> is_linebreak c) s \<Longrightarrow>
     splitlines_from cur (s @ CHR 0x0A # t) = (cur @ s) # splitlines_from [] t"
  by (induction s arbitrary: cur) (auto simp: is_linebreak_def)

lemma lstrip_one_line: "s \<noteq> [] \<Longrightarrow> \<not> is_space (hd s) \<Longrightarrow> lstrip s = s"
  by (cases s) (simp_all add: lstrip_def)

lemma rstrip_one_line: "s \<noteq> [] \<Longrightarrow> \<not> is_space (last s) \<Longrightarrow> rstrip s = s"
proof -
  assume "s \<noteq> []" and "\<not> is_space (last s)"
  then have "dropWhile is_space (rev s) = rev s"
    by (cases "rev s") (simp_all add: last_rev [symmetric] hd_rev)
  then show ?thesis by (simp add: rstrip_def)
qed

lemma doc_trim_one_line:
  assumes "one_line s"
  shows "doc_trim s = Inr (s @ [CHR 0x0A] @ s)"
    and "doc_trim (s @ [CHR 0x0A] @ s) = Inr (s @ [CHR 0x0A] @ s @ [CHR 0x0A] @ s)"
proof -
  from assms have ne: "s \<noteq> []" and h: "\<not> is_space (hd s)" and l: "\<not> is_space (last s)"
    and nt: "CHR 0x09 \<notin> set s" and nb: "list_all (\<lambda>c. \<not> is_linebreak c) s"
    by (auto simp: one_line_def list_all_iff)
  have ls: "lstrip s = s" using ne h by (rule lstrip_one_line)
  have rs: "rstrip s = s" using ne l by (rule rstrip_one_line)
  have st: "strip s = s" by (simp add: strip_def ls rs)
  have lines1: "splitlines (expandtabs s) = [s]"
    using ne by (simp add: splitlines_def expandtabs_def expandtabs_no_tab [OF nt] splitlines_no_break [OF nb])
  show "doc_trim s = Inr (s @ [CHR 0x0A] @ s)"
    using ne by (simp add: doc_trim_def lines1 Let_def ls rs st pop_trailing_blank_def pop_leading_blank_def)
  have nt2: "CHR 0x09 \<notin> set (s @ CHR 0x0A # s)" using nt by simp
  have "splitlines_from [] (s @ CHR 0x0A # s) = s # splitlines_from [] s"
    using splitlines_first_line [OF nb, of "[]" s] by simp
  also have "splitlines_from [] s = [s]"
    using ne by (simp add: splitlines_no_break [OF nb])
  finally have lines2: "splitlines (expandtabs (s @ CHR 0x0A # s)) = [s, s]"
    by (simp add: splitlines_def expandtabs_def expandtabs_no_tab [OF nt2])
  show "doc_trim (s @ [CHR 0x0A] @ s) = Inr (s @ [CHR 0x0A] @ s @ [CHR 0x0A] @ s)"
    using ne by (simp add: doc_trim_def lines2 Let_def ls rs st pop_trailing_blank_def pop_leading_blank_def)
qed

text \<open>
  Claim C10 says that \<^verbatim>\<open>doc_trim\<close> is idempotent. The comments of the source say that
  the first line does not count for the indentation and is special, but its two loops
  run over \<^verbatim>\<open>lines\<close>, the first line included: the stripped first line is followed
  by the first line once more. For every docstring of one line \<^verbatim>\<open>doc_trim\<close> returns
  the line twice, a second application returns it three times, and so the second
  application changes the result of the first.
\<close>

theorem doc_trim_repeats_first_line:
  assumes "one_line s"
  shows "doc_trim s = Inr (s @ ''\<newline>'' @ s)
       \<and> doc_trim_twice s = Inr (s @ ''\<newline>'' @ s @ ''\<newline>'' @ s)
       \<and> doc_trim_twice s \<noteq> doc_trim s"
proof -
  from assms have ne: "s \<noteq> []" by (simp add: one_line_def)
  have once: "doc_trim s = Inr (s @ [CHR 0x0A] @ s)"
    using assms by (rule doc_trim_one_line(1))
  have again: "doc_trim (s @ [CHR 0x0A] @ s) = Inr (s @ [CHR 0x0A] @ s @ [CHR 0x0A] @ s)"
    using assms by (rule doc_trim_one_line(2))
  have twice: "doc_trim_twice s = Inr (s @ [CHR 0x0A] @ s @ [CHR 0x0A] @ s)"
    using once again by (simp add: doc_trim_twice_def)
  from ne have "s @ [CHR 0x0A] @ s @ [CHR 0x0A] @ s \<noteq> s @ [CHR 0x0A] @ s" by simp
  with once twice show ?thesis by simp
qed

theorem doc_trim_repeats_first_line_witness:
  "one_line ''Widget services''
   \<and> doc_trim ''Widget services'' = Inr ''Widget services\<newline>Widget services''
   \<and> doc_trim_twice ''Widget services''
       = Inr ''Widget services\<newline>Widget services\<newline>Widget services''
   \<and> doc_trim_twice ''Widget services'' \<noteq> doc_trim ''Widget services''"
proof -
  have o: "one_line ''Widget services''"
    by (simp add: one_line_def is_space_def is_linebreak_def)
  from doc_trim_repeats_first_line [OF o] o show ?thesis by simp
qed
section \<open>Dictionaries\<close>

lemma map_of_dict_set: "map_of (dict_set k v d) k' = (if k' = k then Some v else map_of d k')"
  by (induction d) auto

lemma map_of_dict_del: "map_of (dict_del k d) k' = (if k' = k then None else map_of d k')"
  by (induction d) (auto simp: dict_del_def)

lemma has_key_dict_set: "has_key k' (dict_set k v d) = (k' = k \<or> has_key k' d)"
  by (simp add: has_key_def map_of_dict_set)

lemma dict_set_same: "map_of d k = Some v \<Longrightarrow> dict_set k v d = d"
  by (induction d) (auto split: if_splits)

lemma dict_set_twice: "dict_set k v (dict_set k w d) = dict_set k v d"
  by (induction d) auto

lemma map_fst_dict_set: "map_of d k \<noteq> None \<Longrightarrow> map fst (dict_set k v d) = map fst d"
  by (induction d) (auto split: if_splits)

text \<open>A value of its own under the key: the change of the object is an assignment to
  the key.\<close>

lemma set_object_own:
  "map_of d k = None \<Longrightarrow> set_object k c d = dict_set k c d"
  "map_of d k = Some YNone \<Longrightarrow> set_object k c d = dict_set k c d"
  "map_of d k = Some (YBool b) \<Longrightarrow> set_object k c d = dict_set k c d"
  "map_of d k = Some (YInt n) \<Longrightarrow> set_object k c d = dict_set k c d"
  "map_of d k = Some (YStr s) \<Longrightarrow> set_object k c d = dict_set k c d"
  "map_of d k = Some (YList xs) \<Longrightarrow> set_object k c d = dict_set k c d"
  "map_of d k = Some (YDict m) \<Longrightarrow> set_object k c d = dict_set k c d"
  by (simp_all add: set_object_def)

lemma map_of_assign_dict: "map_of (assign_dict i c d) k = map_option (assign i c) (map_of d k)"
  by (induction d) auto

lemma map_of_set_object:
  "map_of d k = Some node \<Longrightarrow> \<exists>node'. map_of (set_object k c d) k = Some node' \<and> content node' = content c"
proof (cases node)
  case (YShared i v)
  assume "map_of d k = Some node"
  with YShared show ?thesis by (simp add: set_object_def map_of_assign_dict)
qed (simp_all add: set_object_def map_of_dict_set)


lemma ensure_docstring_total:
  obtains d where "ensure_docstring doc st = Inr (d, st\<lparr>errors := errors st \<or> doc = None\<rparr>)"
proof (cases doc)
  case None
  then show ?thesis using that by (simp add: ensure_docstring_def doc_trim_def)
next
  case (Some body)
  obtain t where "doc_trim body = Inr t" using doc_trim_total by blast
  with Some show ?thesis using that by (simp add: ensure_docstring_def)
qed

section \<open>The version check of the module\<close>

text \<open>
  Claim C6 says that an error is recorded whenever the version string is missing or
  does not have exactly three dot-separated numeric components. The source counts the
  components and looks at nothing else: the version \<^verbatim>\<open>a.b.c\<close> is accepted, no error
  is recorded and \<^verbatim>\<open>info.version\<close> is set to it.
\<close>

theorem parse_module_numeric_counterexample:
  "(case parse_module (base_env\<lparr>version := Some ''a.b.c''\<rparr>) initial_state of
      Inl err \<Rightarrow> False
    | Inr st' \<Rightarrow> \<not> errors st' \<and> map_of (info st') (KStr ''version'') = Some (YStr ''a.b.c''))"
  by (simp add: parse_module_def Let_def map_of_dict_set base_env_def initial_state_def
        ensure_docstring_def str_defs)

text \<open>
  Claim C6, amended: \<^verbatim>\<open>parse_module\<close> returns with the error flag set, and leaves
  \<^verbatim>\<open>info.version\<close> as it was, whenever the version is missing or does not split at
  its dots into exactly three components; a version of exactly three components,
  numeric or not, is stored in \<^verbatim>\<open>info.version\<close>, and then the flag is set only for a
  missing module docstring. In particular the version \<^verbatim>\<open>1.2\<close> sets the flag and
  leaves \<^verbatim>\<open>info.version\<close> unset.
\<close>

theorem parse_module_version:
  "(version e = None \<or> (\<exists>v. version e = Some v \<and> length (split_on CHR ''.'' v) \<noteq> 3) \<longrightarrow>
      (\<exists>st'. parse_module e st = Inr st' \<and> errors st'
         \<and> map_of (info st') (KStr ''version'') = map_of (info st) (KStr ''version'')))
   \<and> (\<forall>v. version e = Some v \<and> length (split_on CHR ''.'' v) = 3 \<longrightarrow>
      (\<exists>st'. parse_module e st = Inr st'
         \<and> map_of (info st') (KStr ''version'') = Some (YStr v)
         \<and> errors st' = (errors st \<or> module_doc e = None)))"
proof (intro conjI impI allI)
  assume "version e = None \<or> (\<exists>v. version e = Some v \<and> length (split_on CHR ''.'' v) \<noteq> 3)"
  then show "\<exists>st'. parse_module e st = Inr st' \<and> errors st'
         \<and> map_of (info st') (KStr ''version'') = map_of (info st) (KStr ''version'')"
    by (auto simp: parse_module_def Let_def map_of_dict_set)
next
  fix v
  assume v: "version e = Some v \<and> length (split_on CHR ''.'' v) = 3"
  let ?st1 = "st\<lparr>info := dict_set (KStr ''title'') (YStr (capitalise (module_name e))) (info st)\<rparr>"
  let ?st2 = "?st1\<lparr>info := dict_set (KStr ''version'') (YStr v) (info ?st1)\<rparr>"
  obtain d where d: "ensure_docstring (module_doc e) ?st2
      = Inr (d, ?st2\<lparr>errors := errors ?st2 \<or> module_doc e = None\<rparr>)"
    using ensure_docstring_total [of "module_doc e" ?st2] by blast
  with v show "\<exists>st'. parse_module e st = Inr st'
         \<and> map_of (info st') (KStr ''version'') = Some (YStr v)
         \<and> errors st' = (errors st \<or> module_doc e = None)"
    by (simp add: parse_module_def Let_def map_of_dict_set)
qed

theorem parse_module_version_witness:
  "version (base_env\<lparr>version := Some ''1.2''\<rparr>) = Some ''1.2''
   \<and> length (split_on CHR ''.'' ''1.2'') = 2
   \<and> map_of (info initial_state) (KStr ''version'') = None
   \<and> (\<exists>st'. parse_module (base_env\<lparr>version := Some ''1.2''\<rparr>) initial_state = Inr st' \<and> errors st'
         \<and> map_of (info st') (KStr ''version'') = None)
   \<and> version base_env = Some ''1.0.0''
   \<and> length (split_on CHR ''.'' ''1.0.0'') = 3
   \<and> (\<exists>st'. parse_module base_env initial_state = Inr st' \<and> \<not> errors st'
         \<and> map_of (info st') (KStr ''version'') = Some (YStr ''1.0.0''))"
proof -
  have a: "version (base_env\<lparr>version := Some ''1.2''\<rparr>) = Some ''1.2''" by simp
  have b: "length (split_on CHR ''.'' ''1.2'') = 2" by simp
  have c: "map_of (info initial_state) (KStr ''version'') = None"
    by (simp add: initial_state_def default_info_def)
  have d: "version base_env = Some ''1.0.0''" "module_doc base_env \<noteq> None"
    by (simp_all add: base_env_def)
  have e: "length (split_on CHR ''.'' ''1.0.0'') = 3" by simp
  have f: "\<not> errors initial_state" by (simp add: initial_state_def)
  from parse_module_version [of "base_env\<lparr>version := Some ''1.2''\<rparr>" initial_state] a b c
  have g: "\<exists>st'. parse_module (base_env\<lparr>version := Some ''1.2''\<rparr>) initial_state = Inr st'
             \<and> errors st' \<and> map_of (info st') (KStr ''version'') = None"
    by simp
  from parse_module_version [of base_env initial_state] d e f
  have h: "\<exists>st'. parse_module base_env initial_state = Inr st' \<and> \<not> errors st'
             \<and> map_of (info st') (KStr ''version'') = Some (YStr ''1.0.0'')"
    by auto
  from a b c g d(1) e h show ?thesis by blast
qed

section \<open>Partial update\<close>



section \<open>Response normalization\<close>

lemma str_int_200: "str_int 200 = ''200''"
  by (simp add: str_int_def)

lemma str_int_401: "str_int 401 = ''401''"
  by (simp add: str_int_def)



lemma with_description_mapping:
  "with_description code (YDict d) = Inr (YDict
     (if has_key (KStr ''description'') d then d
      else dict_set (KStr ''description'')
             (YStr (case map_of DEFAULT_RESPONSE_DESCRIPTIONS (py_str code) of
                      None \<Rightarrow> ''none'' | Some t \<Rightarrow> t)) d))"
  by (simp add: with_description_def)

lemma with_content_mapping: "\<exists>d'. with_content st code (YDict d) = Inr (YDict d')"
  by (cases "has_key (KStr ''content'') d") (simp_all add: with_content_def)

lemma normalise_mapping_total:
  assumes "py_str code \<noteq> []"
  shows "\<exists>details'. normalise_response st code (YDict d) = Inr details'"
proof -
  from assms obtain c0 cs where c: "py_str code = c0 # cs" by (cases "py_str code") auto
  obtain d1 where d1: "with_description code (YDict d) = Inr (YDict d1)"
    by (simp add: with_description_mapping)
  obtain d2 where d2: "with_content st code (YDict d1) = Inr (YDict d2)"
    using with_content_mapping by blast
  show ?thesis
    using c d1 d2 by (cases "d = []") (simp_all add: normalise_response_def)
qed

lemma map_of_setdefault:
  "map_of (setdefault k v d) k = Some (case map_of d k of None \<Rightarrow> v | Some x \<Rightarrow> x)"
  by (cases "map_of d k") (simp_all add: setdefault_def has_key_def map_add_def)

section \<open>The loop over the responses\<close>

lemma normalise_mapping_result:
  assumes "py_str code \<noteq> []"
  shows "\<exists>d'. normalise_response st code (YDict d) = Inr (YDict d')"
proof -
  from assms obtain c0 cs where c: "py_str code = c0 # cs" by (cases "py_str code") auto
  obtain d1 where d1: "with_description code (YDict d) = Inr (YDict d1)"
    by (simp add: with_description_mapping)
  obtain d2 where d2: "with_content st code (YDict d1) = Inr (YDict d2)"
    using with_content_mapping by blast
  show ?thesis
    using c d1 d2 by (cases "d = []") (simp_all add: normalise_response_def)
qed

lemma responses_of_own:
  "map_of method_spec (KStr ''responses'') = Some (YDict rs) \<Longrightarrow> responses_of method_spec = Inr rs"
  by (simp add: responses_of_def)

text \<open>The loop on a well-formed block: every code of the turn list takes its normalized
  response, and nothing else changes.\<close>

lemma own_loop:
  assumes "list_all (\<lambda>(code, details). py_str code \<noteq> [] \<and> is_mapping details) rs"
    and "map_of method_spec (KStr ''responses'') = Some (YDict rs)"
    and "set codes \<subseteq> fst ` set rs"
    and "distinct codes"
  shows "\<exists>rs'. normalise_responses st codes method_spec
                 = Inr (dict_set (KStr ''responses'') (YDict rs') method_spec)
          \<and> (\<forall>c. c \<notin> set codes \<longrightarrow> map_of rs' c = map_of rs c)
          \<and> (\<forall>c \<in> set codes. \<forall>d. map_of rs c = Some d \<longrightarrow>
                (\<exists>d'. normalise_response st c d = Inr d' \<and> map_of rs' c = Some d'))"
  using assms
proof (induction codes arbitrary: method_spec rs)
  case Nil
  have "dict_set (KStr ''responses'') (YDict rs) method_spec = method_spec"
    using Nil.prems(2) by (rule dict_set_same)
  then have "normalise_responses st [] method_spec
               = Inr (dict_set (KStr ''responses'') (YDict rs) method_spec)" by simp
  then show ?case by (intro exI [of _ rs]) simp
next
  case (Cons c codes)
  from Cons.prems(3) obtain v where v: "map_of rs c = Some v"
    by (cases "map_of rs c") (auto simp: map_of_eq_None_iff)
  then have "(c, v) \<in> set rs" by (rule map_of_SomeD)
  with Cons.prems(1) obtain d where d: "v = YDict d" and c: "py_str c \<noteq> []"
    by (cases v) (auto simp: is_mapping_def list_all_iff)
  from normalise_mapping_result [OF c] obtain d' where
    d': "normalise_response st c (YDict d) = Inr (YDict d')" by blast
  let ?rs1 = "dict_set c (YDict d') rs"
  let ?ms1 = "dict_set (KStr ''responses'') (YDict ?rs1) method_spec"
  have step: "normalise_responses st (c # codes) method_spec = normalise_responses st codes ?ms1"
    using Cons.prems(2) v d d'
    by (simp add: responses_of_own set_object_own)
  have wf1: "list_all (\<lambda>(code, details). py_str code \<noteq> [] \<and> is_mapping details) ?rs1"
    using Cons.prems(1) c
  proof (induction rs)
    case Nil
    then show ?case by (simp add: is_mapping_def)
  next
    case (Cons p rs)
    then show ?case by (cases p) (auto simp: is_mapping_def)
  qed
  have ms1: "map_of ?ms1 (KStr ''responses'') = Some (YDict ?rs1)" by (simp add: map_of_dict_set)
  have keys1: "set codes \<subseteq> fst ` set ?rs1"
  proof -
    have "map fst ?rs1 = map fst rs" using v by (simp add: map_fst_dict_set)
    then have "fst ` set ?rs1 = fst ` set rs" by (metis set_map)
    with Cons.prems(3) show ?thesis by auto
  qed
  from Cons.prems(4) have dist: "distinct codes" and notin: "c \<notin> set codes" by simp_all
  from Cons.IH [OF wf1 ms1 keys1 dist] obtain rs' where
    run: "normalise_responses st codes ?ms1 = Inr (dict_set (KStr ''responses'') (YDict rs') ?ms1)"
    and other: "\<forall>k. k \<notin> set codes \<longrightarrow> map_of rs' k = map_of ?rs1 k"
    and visited: "\<forall>k \<in> set codes. \<forall>x. map_of ?rs1 k = Some x \<longrightarrow>
                (\<exists>x'. normalise_response st k x = Inr x' \<and> map_of rs' k = Some x')"
    by blast
  have "normalise_responses st (c # codes) method_spec
          = Inr (dict_set (KStr ''responses'') (YDict rs') method_spec)"
    using step run by (simp add: dict_set_twice)
  moreover have "\<forall>k. k \<notin> set (c # codes) \<longrightarrow> map_of rs' k = map_of rs k"
    using other by (simp add: map_of_dict_set)
  moreover have "\<forall>k \<in> set (c # codes). \<forall>x. map_of rs k = Some x \<longrightarrow>
                (\<exists>x'. normalise_response st k x = Inr x' \<and> map_of rs' k = Some x')"
  proof (intro ballI allI impI)
    fix k x assume k: "k \<in> set (c # codes)" and x: "map_of rs k = Some x"
    show "\<exists>x'. normalise_response st k x = Inr x' \<and> map_of rs' k = Some x'"
    proof (cases "k = c")
      case True
      with x v d have "x = YDict d" by simp
      moreover from other notin have "map_of rs' c = Some (YDict d')" by (simp add: map_of_dict_set)
      ultimately show ?thesis using True d' by simp
    next
      case False
      with k have "k \<in> set codes" by simp
      moreover from False x have "map_of ?rs1 k = Some x" by (simp add: map_of_dict_set)
      ultimately show ?thesis using visited by blast
    qed
  qed
  ultimately show ?case by blast
qed




lemma map_of_in_keys: "map_of d k = Some v \<Longrightarrow> k \<in> set (map fst d)"
  by (induction d) (auto split: if_splits)

lemma install_steps:
  assumes "install_default_response_data method_spec st = Inr method_spec'"
    and "map_of method_spec (KStr ''responses'') = Some (YDict responses)"
  obtains method_spec2 responses2 where
    "normalise_responses st (map fst responses) method_spec = Inr method_spec2"
    "responses_of method_spec2 = Inr responses2"
    "method_spec' = set_object (KStr ''responses'')
                      (YDict (dict_set (KInt 401) unauthorized_ref responses2)) method_spec2"
proof -
  have sd: "setdefault (KStr ''responses'') (YDict []) method_spec = method_spec"
    using assms(2) by (simp add: setdefault_def has_key_def)
  from assms show ?thesis
    using that
    by (auto simp: install_default_response_data_def sd responses_of_own unauthorized_ref_def
          split: sum.splits)
qed




text \<open>
  Claim C9 says that the forced 401 reference overrides any 401 response that the
  metadata block declared. The source assigns to the integer key 401. YAML reads a
  quoted code as a text, and a response declared under the text \<^verbatim>\<open>401\<close> is another
  key: it is normalized like every other response and stays in the mapping beside the
  forced entry. The block is \<^verbatim>\<open>{'200': {}, '401': {description: Log in first}}\<close>.
\<close>

theorem text_401_counterexample:
  "responses_of text_code_spec
     = Inr [(KStr ''200'', YDict []),
            (KStr ''401'', YDict [(KStr ''description'', YStr ''Log in first'')])]
   \<and> (case install_default_response_data text_code_spec widget_list_state of
         Inl err \<Rightarrow> False
       | Inr method_spec' \<Rightarrow>
           (case responses_of method_spec' of
              Inl err \<Rightarrow> False
            | Inr responses' \<Rightarrow>
                map fst responses' = [KStr ''200'', KStr ''401'', KInt 401]
                \<and> map_of responses' (KStr ''401'')
                    = Some (YDict [(KStr ''description'', YStr ''Log in first'')])
                \<and> map_of responses' (KInt 401) = Some unauthorized_ref))"
  by code_simp

text \<open>
  Claim C9 for the integer code: whenever \<^verbatim>\<open>install_default_response_data\<close> returns,
  the entry of the responses under the integer 401 is the fixed reference
  \<^verbatim>\<open>#/components/responses/401\<close>, whatever the block declared under that key: the
  assignment comes after the loop. The call returns on every well-formed block. A
  response that a well-formed block declares under the text \<^verbatim>\<open>401\<close> is still there
  afterwards, as the loop normalized it.
\<close>

theorem unauthorized_forced:
  "(install_default_response_data method_spec st = Inr method_spec' \<longrightarrow>
      (\<exists>r responses'. map_of method_spec' (KStr ''responses'') = Some r
         \<and> content r = YDict responses'
         \<and> map_of responses' (KInt 401)
             = Some (YDict [(KStr ''$ref'', YStr ''#/components/responses/401'')])))
   \<and> (responses_well_formed method_spec \<longrightarrow>
        (\<exists>result. install_default_response_data method_spec st = Inr result))
   \<and> (responses_well_formed method_spec
        \<and> map_of method_spec (KStr ''responses'') = Some (YDict responses)
        \<and> map_of responses (KStr ''401'') = Some details
        \<and> install_default_response_data method_spec st = Inr method_spec' \<longrightarrow>
        (\<exists>responses' details'.
           map_of method_spec' (KStr ''responses'') = Some (YDict responses')
           \<and> normalise_response st (KStr ''401'') details = Inr details'
           \<and> map_of responses' (KStr ''401'') = Some details'))"
proof (intro conjI impI)
  assume "install_default_response_data method_spec st = Inr method_spec'"
  then obtain ms2 rs2 where
    ro: "responses_of ms2 = Inr rs2" and
    out: "method_spec' = set_object (KStr ''responses'')
            (YDict (dict_set (KInt 401) unauthorized_ref rs2)) ms2"
    by (auto simp: install_default_response_data_def Let_def unauthorized_ref_def
          split: sum.splits)
  from ro obtain node where "map_of ms2 (KStr ''responses'') = Some node"
    by (auto simp: responses_of_def split: option.splits)
  from map_of_set_object [OF this, of "YDict (dict_set (KInt 401) unauthorized_ref rs2)"] out
  obtain r where "map_of method_spec' (KStr ''responses'') = Some r"
    "content r = YDict (dict_set (KInt 401) unauthorized_ref rs2)"
    by auto
  then show "\<exists>r responses'. map_of method_spec' (KStr ''responses'') = Some r
         \<and> content r = YDict responses'
         \<and> map_of responses' (KInt 401)
             = Some (YDict [(KStr ''$ref'', YStr ''#/components/responses/401'')])"
    by (auto simp: map_of_dict_set unauthorized_ref_def)
next
  assume wf: "responses_well_formed method_spec"
  show "\<exists>result. install_default_response_data method_spec st = Inr result"
  proof (cases "map_of method_spec (KStr ''responses'')")
    case None
    then show ?thesis
      by (simp add: install_default_response_data_def Let_def map_of_setdefault responses_of_def)
  next
    case (Some v)
    with wf obtain rs where v: "v = YDict rs"
      and rs: "list_all (\<lambda>(code, details). py_str code \<noteq> [] \<and> is_mapping details) rs"
      and dist: "distinct (map fst rs)"
      by (cases v) (auto simp: responses_well_formed_def)
    have sd: "setdefault (KStr ''responses'') (YDict []) method_spec = method_spec"
      using Some by (simp add: setdefault_def has_key_def)
    from Some v have ms: "map_of method_spec (KStr ''responses'') = Some (YDict rs)" by simp
    from own_loop [OF rs ms _ dist, of st] obtain rs' where
      "normalise_responses st (map fst rs) method_spec
         = Inr (dict_set (KStr ''responses'') (YDict rs') method_spec)"
      by auto
    with ms show ?thesis
      by (simp add: install_default_response_data_def sd responses_of_own map_of_dict_set)
  qed
next
  assume a: "responses_well_formed method_spec
        \<and> map_of method_spec (KStr ''responses'') = Some (YDict responses)
        \<and> map_of responses (KStr ''401'') = Some details
        \<and> install_default_response_data method_spec st = Inr method_spec'"
  then have ms: "map_of method_spec (KStr ''responses'') = Some (YDict responses)"
    and d: "map_of responses (KStr ''401'') = Some details"
    and inst: "install_default_response_data method_spec st = Inr method_spec'"
    by simp_all
  from a have rs: "list_all (\<lambda>(code, details). py_str code \<noteq> [] \<and> is_mapping details) responses"
    and dist: "distinct (map fst responses)"
    by (auto simp: responses_well_formed_def)
  from own_loop [OF rs ms _ dist, of st] obtain rs' where
    loop: "normalise_responses st (map fst responses) method_spec
         = Inr (dict_set (KStr ''responses'') (YDict rs') method_spec)"
    and visited: "\<forall>c \<in> set (map fst responses). \<forall>x. map_of responses c = Some x \<longrightarrow>
                (\<exists>x'. normalise_response st c x = Inr x' \<and> map_of rs' c = Some x')"
    by auto
  have "KStr ''401'' \<in> set (map fst responses)" using d by (rule map_of_in_keys)
  with visited d obtain details' where
    d': "normalise_response st (KStr ''401'') details = Inr details'"
    "map_of rs' (KStr ''401'') = Some details'"
    by blast
  from inst ms obtain ms2 rs2 where
    loop2: "normalise_responses st (map fst responses) method_spec = Inr ms2" and
    ro: "responses_of ms2 = Inr rs2" and
    out: "method_spec' = set_object (KStr ''responses'')
                           (YDict (dict_set (KInt 401) unauthorized_ref rs2)) ms2"
    by (rule install_steps)
  from loop loop2 have ms2: "ms2 = dict_set (KStr ''responses'') (YDict rs') method_spec" by simp
  with ro have "rs2 = rs'" by (simp add: responses_of_def map_of_dict_set)
  with out ms2 have "map_of method_spec' (KStr ''responses'')
      = Some (YDict (dict_set (KInt 401) unauthorized_ref rs'))"
    by (simp add: set_object_own map_of_dict_set)
  with d' show "\<exists>responses' details'.
           map_of method_spec' (KStr ''responses'') = Some (YDict responses')
           \<and> normalise_response st (KStr ''401'') details = Inr details'
           \<and> map_of responses' (KStr ''401'') = Some details'"
    by (simp add: map_of_dict_set)
qed


theorem unauthorized_forced_witness:
  "responses_well_formed widget_list_spec
   \<and> map_of widget_list_spec (KStr ''responses'') = Some (YDict [
         (KInt 200, YDict []),
         (KInt 401, YDict [(KStr ''description'', YStr ''Log in first'')])])
   \<and> (\<exists>method_spec' r responses'.
         install_default_response_data widget_list_spec widget_list_state = Inr method_spec'
         \<and> map_of method_spec' (KStr ''responses'') = Some r
         \<and> content r = YDict responses'
         \<and> map_of responses' (KInt 401)
             = Some (YDict [(KStr ''$ref'', YStr ''#/components/responses/401'')]))
   \<and> responses_well_formed text_code_spec
   \<and> map_of text_code_spec (KStr ''responses'') = Some (YDict [
         (KStr ''200'', YDict []),
         (KStr ''401'', YDict [(KStr ''description'', YStr ''Log in first'')])])
   \<and> (\<exists>method_spec' responses'.
         install_default_response_data text_code_spec widget_list_state = Inr method_spec'
         \<and> map_of method_spec' (KStr ''responses'') = Some (YDict responses')
         \<and> map_of responses' (KStr ''401'')
             = Some (YDict [(KStr ''description'', YStr ''Log in first'')]))"
proof -
  let ?declared = "YDict [(KStr ''description'', YStr ''Log in first'')]"
  have wf: "responses_well_formed widget_list_spec"
    by (simp add: responses_well_formed_def widget_list_spec_def is_mapping_def str_int_200 str_int_401)
  have rs: "map_of widget_list_spec (KStr ''responses'') = Some (YDict [
         (KInt 200, YDict []), (KInt 401, ?declared)])"
    by (simp add: widget_list_spec_def)
  have wft: "responses_well_formed text_code_spec"
    by (simp add: responses_well_formed_def text_code_spec_def is_mapping_def)
  have rst: "map_of text_code_spec (KStr ''responses'') = Some (YDict [
         (KStr ''200'', YDict []), (KStr ''401'', ?declared)])"
    by (simp add: text_code_spec_def)
  have d: "map_of [(KStr ''200'', YDict []), (KStr ''401'', ?declared)] (KStr ''401'') = Some ?declared"
    by simp
  have n: "normalise_response widget_list_state (KStr ''401'') ?declared = Inr ?declared"
    by (simp add: normalise_response_def with_description_def with_content_def has_key_def)
  from unauthorized_forced [of widget_list_spec widget_list_state] wf
  obtain ms1 where
    i1: "install_default_response_data widget_list_spec widget_list_state = Inr ms1"
    by blast
  with unauthorized_forced [of widget_list_spec widget_list_state ms1]
  obtain r responses1 where
    o1: "map_of ms1 (KStr ''responses'') = Some r" "content r = YDict responses1"
    "map_of responses1 (KInt 401) = Some (YDict [(KStr ''$ref'', YStr ''#/components/responses/401'')])"
    by blast
  from unauthorized_forced [of text_code_spec widget_list_state] wft
  obtain ms2 where
    i2: "install_default_response_data text_code_spec widget_list_state = Inr ms2"
    by blast
  with unauthorized_forced [of text_code_spec widget_list_state ms2
         "[(KStr ''200'', YDict []), (KStr ''401'', ?declared)]" ?declared] wft rst d
  obtain responses2 details' where
    o2: "map_of ms2 (KStr ''responses'') = Some (YDict responses2)"
    "normalise_response widget_list_state (KStr ''401'') ?declared = Inr details'"
    "map_of responses2 (KStr ''401'') = Some details'"
    by blast
  from o2(2,3) n have "map_of responses2 (KStr ''401'') = Some ?declared" by simp
  with wf rs i1 o1 wft rst i2 o2(1) show ?thesis by blast
qed
section \<open>Path parameters\<close>

lemma well_formed_del: "declarations_well_formed pp \<Longrightarrow> declarations_well_formed (dict_del k pp)"
  by (simp add: declarations_well_formed_def dict_del_def list_all_iff)

lemma declared_type_del: "q \<noteq> p \<Longrightarrow> declared_type (dict_del (KStr p) pp) q = declared_type pp q"
  by (simp add: declared_type_def map_of_dict_del)

lemma expected_del:
  "p \<notin> set params \<Longrightarrow> expected_parameters (dict_del (KStr p) pp) params = expected_parameters pp params"
proof -
  assume "p \<notin> set params"
  then have "\<forall>q \<in> set params. declared_type (dict_del (KStr p) pp) q = declared_type pp q"
    using declared_type_del by metis
  then show ?thesis
    unfolding expected_parameters_def by (induction params) auto
qed

lemma param_data_object: "param_data p t rest = parameter_object p t rest"
proof -
  have "dict_update d rest = foldl (\<lambda>object entry. dict_set (fst entry) (snd entry) object) d rest" for d
    by (induction rest arbitrary: d) simp_all
  then show ?thesis by (simp add: param_data_def parameter_object_def)
qed

lemma path_params_loop_result:
  assumes "declarations_well_formed pp" and "distinct params"
    and "map_of method_spec (KStr ''parameters'') = Some (YList ps)"
  shows "path_params_loop params (YDict pp) method_spec errs =
     Inr (YDict (filter (\<lambda>kv. fst kv \<notin> KStr ` set params) pp),
          dict_set (KStr ''parameters'') (YList (ps @ expected_parameters pp params)) method_spec,
          errs \<or> (\<exists>p \<in> set params. declared_type pp p = None))"
  using assms
proof (induction params arbitrary: pp method_spec ps errs)
  case Nil
  then show ?case by (simp add: expected_parameters_def dict_set_same)
next
  case (Cons p params)
  let ?pp' = "dict_del (KStr p) pp"
  have wf': "declarations_well_formed ?pp'" using Cons.prems(1) by (rule well_formed_del)
  have dist: "distinct params" "p \<notin> set params" using Cons.prems(2) by simp_all
  have left: "filter (\<lambda>kv. fst kv \<notin> KStr ` set params) ?pp'
                = filter (\<lambda>kv. fst kv \<notin> KStr ` set (p # params)) pp"
    by (auto simp: dict_del_def intro: filter_cong)
  have ex: "(\<exists>q \<in> set params. declared_type ?pp' q = None)
              = (\<exists>q \<in> set params. declared_type pp q = None)"
    using dist(2) declared_type_del by (metis)
  have exp: "expected_parameters ?pp' params = expected_parameters pp params"
    using dist(2) by (rule expected_del)
  show ?case
  proof (cases "declared_type pp p")
    case None
    have step: "path_params_loop (p # params) (YDict pp) method_spec errs
                  = path_params_loop params (YDict ?pp') method_spec True"
    proof (cases "map_of pp (KStr p)")
      case None
      then show ?thesis by (simp add: popped_def popped_from_def)
    next
      case (Some v)
      then have "(KStr p, v) \<in> set pp" by (rule map_of_SomeD)
      with Cons.prems(1) have v: "v = YNone \<or> is_mapping v"
        by (auto simp: declarations_well_formed_def list_all_iff)
      show ?thesis
      proof (cases v)
        case (YDict d)
        with Some \<open>declared_type pp p = None\<close> show ?thesis
          by (auto simp: declared_type_def popped_def popped_in_def popped_from_def
                split: option.splits if_splits)
      qed (use v Some in \<open>auto simp: is_mapping_def popped_def popped_from_def\<close>)
    qed
    have "expected_parameters pp (p # params) = expected_parameters pp params"
      using None by (simp add: expected_parameters_def)
    with step Cons.IH [OF wf' dist(1) Cons.prems(3), of True] left ex exp None
    show ?thesis by simp
  next
    case (Some tr)
    obtain t rest where tr: "tr = (t, rest)" by (cases tr)
    with Some obtain d where d: "map_of pp (KStr p) = Some (YDict d)"
      "map_of d (KStr ''type'') = Some t" "t \<noteq> YNone" "rest = dict_del (KStr ''type'') d"
      by (auto simp: declared_type_def split: option.splits yval.splits if_splits)
    let ?ms' = "dict_set (KStr ''parameters'') (YList (ps @ [parameter_object p t rest])) method_spec"
    have step: "path_params_loop (p # params) (YDict pp) method_spec errs
                  = path_params_loop params (YDict ?pp') ?ms' errs"
      using d Cons.prems(3)
      by (simp add: append_parameter_def popped_def popped_in_def popped_from_def set_object_own
            param_data_object)
    have ms': "map_of ?ms' (KStr ''parameters'') = Some (YList (ps @ [parameter_object p t rest]))"
      by (simp add: map_of_dict_set)
    have "expected_parameters pp (p # params) = parameter_object p t rest # expected_parameters pp params"
      using Some tr by (simp add: expected_parameters_def)
    with step Cons.IH [OF wf' dist(1) ms', of errs] left ex exp Some
    show ?thesis by (simp add: dict_set_twice)
  qed
qed

lemma setdefault_parameters:
  "declared_parameters method_spec = Some ps \<Longrightarrow>
     map_of (setdefault (KStr ''parameters'') (YList []) method_spec) (KStr ''parameters'')
       = Some (YList ps)"
  by (auto simp: declared_parameters_def map_of_setdefault split: option.splits yval.splits)

lemma map_of_setdefault_other:
  "k' \<noteq> k \<Longrightarrow> map_of (setdefault k v d) k' = map_of d k'"
  by (cases "map_of d k'") (simp_all add: setdefault_def map_add_def)

lemma all_str_keys_well_formed:
  "declarations_well_formed pp \<Longrightarrow> all_str_keys (map fst (filter P pp))"
  by (auto simp: declarations_well_formed_def all_str_keys_def list_all_iff split: ykey.splits)

lemma part_url: "get_url ''/widget/<int:id>/part/<int:part_id>'' = ''/widget/{id}/part/{part_id}''"
  by (simp add: get_url_def match_django_def is_lower_az_def is_name_char_def replace_def)

lemma part_placeholders: "doc_findall ''/widget/{id}/part/{part_id}'' = [''id'', ''part_id'']"
  by (simp add: doc_findall_def match_doc_def is_lower_az_def is_name_char_def)

text \<open>
  Claim C5 says that a placeholder whose entry in the declared block supplies a
  \<^verbatim>\<open>type\<close> becomes a parameter. The source takes the type out of the entry with
  \<^verbatim>\<open>details.pop('type', None)\<close>, in the object that was loaded. With the declarations
  \<^verbatim>\<open>{id: &p {type: integer}, part_id: *p}\<close> the two entries are one mapping: the turn
  of \<^verbatim>\<open>id\<close> removes its type, the turn of \<^verbatim>\<open>part_id\<close> finds none, records an error
  and adds no parameter.
\<close>

theorem shared_declaration_counterexample:
  "doc_findall (url part_read_state) = [''id'', ''part_id'']
   \<and> map (\<lambda>entry. (fst entry, content (snd entry))) shared_params
       = [(KStr ''id'', YDict [(KStr ''type'', YStr ''integer'')]),
          (KStr ''part_id'', YDict [(KStr ''type'', YStr ''integer'')])]
   \<and> \<not> errors part_read_state
   \<and> (case parse_path_params (YDict shared_params) widget_read_spec part_read_state of
         Inl err \<Rightarrow> False
       | Inr (method_spec', st') \<Rightarrow>
           errors st'
           \<and> map_of method_spec' (KStr ''parameters'')
               = Some (YList [YDict [(KStr ''in'', YStr ''path''),
                                     (KStr ''required'', YBool True),
                                     (KStr ''name'', YStr ''id''),
                                     (KStr ''schema'', YDict [(KStr ''type'', YStr ''integer'')])]]))"
proof -
  have u: "url part_read_state = ''/widget/{id}/part/{part_id}''"
    by (simp add: part_read_state_def part_url)
  have ps: "doc_findall (url part_read_state) = [''id'', ''part_id'']"
    by (simp add: u part_placeholders)
  have c: "map (\<lambda>entry. (fst entry, content (snd entry))) shared_params
       = [(KStr ''id'', YDict [(KStr ''type'', YStr ''integer'')]),
          (KStr ''part_id'', YDict [(KStr ''type'', YStr ''integer'')])]"
    by (simp add: shared_params_def)
  have ne: "\<not> errors part_read_state"
    by (simp add: part_read_state_def initial_state_def)
  have "parse_path_params (YDict shared_params) widget_read_spec part_read_state
      = Inr (widget_read_spec @
               [(KStr ''parameters'',
                 YList [YDict [(KStr ''in'', YStr ''path''),
                               (KStr ''required'', YBool True),
                               (KStr ''name'', YStr ''id''),
                               (KStr ''schema'', YDict [(KStr ''type'', YStr ''integer'')])]])],
             part_read_state\<lparr>errors := True\<rparr>)"
    by (simp add: parse_path_params_def ps shared_params_def widget_read_spec_def setdefault_def
          has_key_def dict_del_def popped_def popped_in_def popped_from_def append_parameter_def
          set_object_def param_data_def all_str_keys_def)
  with ps c ne show ?thesis by (simp add: widget_read_spec_def)
qed

text \<open>
  Claim C5 for declarations that are mappings of their own: path-parameter
  reconciliation is a strict match in both directions. For a well-formed declared
  block, a path whose placeholders are distinct (a route cannot name a parameter twice)
  and an operation whose own parameters, if any, are a list, \<^verbatim>\<open>parse_path_params\<close>
  returns; the parameter list is extended by exactly one object per resolved placeholder,
  in path order, each of them
  \<^verbatim>\<open>{in: path, required: true, name: <param>, schema: {type: <declared type>}}\<close> with
  the remaining declared keys merged in; nothing else of the operation changes; and the
  error flag is set exactly when it was set before, or a placeholder has no entry or no
  type, or a declared key is no placeholder of the path. The route
  \<^verbatim>\<open>/widget/<int:id>\<close> with the declaration of \<^verbatim>\<open>id\<close> as an integer gives the one
  parameter of the claim.
\<close>

theorem path_params_reconciled:
  assumes "declarations_well_formed path_params"
    and "distinct (doc_findall (url st))"
    and "declared_parameters method_spec = Some ps"
  shows "\<exists>method_spec' st'.
     parse_path_params (YDict path_params) method_spec st = Inr (method_spec', st')
     \<and> map_of method_spec' (KStr ''parameters'')
         = Some (YList (ps @ expected_parameters path_params (doc_findall (url st))))
     \<and> (\<forall>k. k \<noteq> KStr ''parameters'' \<longrightarrow> map_of method_spec' k = map_of method_spec k)
     \<and> errors st' =
         (errors st
          \<or> (\<exists>p \<in> set (doc_findall (url st)). declared_type path_params p = None)
          \<or> (\<exists>k \<in> fst ` set path_params. k \<notin> KStr ` set (doc_findall (url st))))"
proof -
  let ?params = "doc_findall (url st)"
  let ?ms0 = "setdefault (KStr ''parameters'') (YList []) method_spec"
  let ?left = "filter (\<lambda>kv. fst kv \<notin> KStr ` set ?params) path_params"
  have loop: "path_params_loop ?params (YDict path_params) ?ms0 (errors st) =
     Inr (YDict ?left,
          dict_set (KStr ''parameters'') (YList (ps @ expected_parameters path_params ?params)) ?ms0,
          errors st \<or> (\<exists>p \<in> set ?params. declared_type path_params p = None))"
    using assms(1,2) setdefault_parameters [OF assms(3)] by (rule path_params_loop_result)
  have extra: "(?left \<noteq> []) = (\<exists>k \<in> fst ` set path_params. k \<notin> KStr ` set ?params)"
    by (auto simp: filter_empty_conv)
  have keys: "all_str_keys (map fst ?left)"
    using assms(1) by (rule all_str_keys_well_formed)
  show ?thesis
  proof (cases "?left = []")
    case True
    with loop extra show ?thesis
      by (simp add: parse_path_params_def map_of_dict_set map_of_setdefault_other)
  next
    case False
    with loop extra keys show ?thesis
      by (simp add: parse_path_params_def map_of_dict_set map_of_setdefault_other)
  qed
qed

lemma widget_url: "get_url ''/widget/<int:id>'' = ''/widget/{id}''"
  by (simp add: get_url_def match_django_def is_lower_az_def is_name_char_def replace_def)

lemma widget_placeholders: "doc_findall ''/widget/{id}'' = [''id'']"
  by (simp add: doc_findall_def match_doc_def is_lower_az_def is_name_char_def)

theorem path_params_reconciled_witness:
  "declarations_well_formed widget_read_params
   \<and> url widget_read_state = ''/widget/{id}''
   \<and> doc_findall (url widget_read_state) = [''id'']
   \<and> declared_parameters widget_read_spec = Some []
   \<and> \<not> errors widget_read_state
   \<and> (\<exists>method_spec' st'.
        parse_path_params (YDict widget_read_params) widget_read_spec widget_read_state
          = Inr (method_spec', st')
        \<and> map_of method_spec' (KStr ''parameters'')
            = Some (YList [YDict [(KStr ''in'', YStr ''path''),
                                  (KStr ''required'', YBool True),
                                  (KStr ''name'', YStr ''id''),
                                  (KStr ''schema'', YDict [(KStr ''type'', YStr ''integer'')])]])
        \<and> \<not> errors st')"
proof -
  have wf: "declarations_well_formed widget_read_params"
    by (simp add: declarations_well_formed_def widget_read_params_def is_mapping_def)
  have u: "url widget_read_state = ''/widget/{id}''"
    by (simp add: widget_read_state_def widget_url)
  have ps: "doc_findall (url widget_read_state) = [''id'']"
    by (simp add: u widget_placeholders)
  have dist: "distinct (doc_findall (url widget_read_state))" by (simp add: ps)
  have dp: "declared_parameters widget_read_spec = Some []"
    by (simp add: declared_parameters_def widget_read_spec_def)
  have ne: "\<not> errors widget_read_state"
    by (simp add: widget_read_state_def initial_state_def)
  have dt: "declared_type widget_read_params ''id'' = Some (YStr ''integer'', [])"
    by (simp add: declared_type_def widget_read_params_def dict_del_def)
  have ex: "expected_parameters widget_read_params [''id'']
      = [YDict [(KStr ''in'', YStr ''path''),
                (KStr ''required'', YBool True),
                (KStr ''name'', YStr ''id''),
                (KStr ''schema'', YDict [(KStr ''type'', YStr ''integer'')])]]"
    by (simp add: expected_parameters_def dt parameter_object_def)
  have keys: "fst ` set widget_read_params = {KStr ''id''}"
    by (simp add: widget_read_params_def)
  from path_params_reconciled [OF wf dist dp] ps ex ne dt keys
  have "\<exists>method_spec' st'.
        parse_path_params (YDict widget_read_params) widget_read_spec widget_read_state
          = Inr (method_spec', st')
        \<and> map_of method_spec' (KStr ''parameters'')
            = Some (YList [YDict [(KStr ''in'', YStr ''path''),
                                  (KStr ''required'', YBool True),
                                  (KStr ''name'', YStr ''id''),
                                  (KStr ''schema'', YDict [(KStr ''type'', YStr ''integer'')])]])
        \<and> \<not> errors st'"
    by auto
  with wf u ps dp ne show ?thesis by blast
qed

section \<open>Input schemas\<close>

lemma ensure_flag_errors: "ensure_flag d (st\<lparr>errors := True\<rparr>) = (ensure_flag d st)\<lparr>errors := True\<rparr>"
  by (simp add: ensure_flag_def)

lemma input_fields_flag:
  "input_fields c m fs req props (st\<lparr>errors := True\<rparr>)
     = with_error_flag (input_fields c m fs req props st)"
proof (induction fs arbitrary: req props st)
  case Nil
  then show ?case by (simp add: with_error_flag_def)
next
  case (Cons f fs)
  show ?case
  proof (cases "map_of (validators c) (''validate_'' @ f)")
    case None
    then show ?thesis using Cons.IH [of req props "st\<lparr>errors := True\<rparr>"] Cons.IH [of req props st]
      by simp
  next
    case (Some d)
    show ?thesis
    proof (cases "safe_load d")
      case ScannerError
      with Some show ?thesis
        using Cons.IH [of req props "(ensure_flag d st)\<lparr>errors := True\<rparr>"]
          Cons.IH [of req props "ensure_flag d st"]
        by (simp add: ensure_flag_errors)
    next
      case OtherYamlError
      with Some show ?thesis by (simp add: with_error_flag_def)
    next
      case (Loaded v)
      show ?thesis
      proof (cases v)
        case (YDict fd)
        with Some Loaded show ?thesis
          using Cons.IH [of _ _ "ensure_flag d st"]
          by (simp add: ensure_flag_errors Let_def with_error_flag_def)
      qed (use Some Loaded in \<open>simp_all add: with_error_flag_def\<close>)
    qed
  qed
qed

lemma input_fields_return_flag:
  "input_fields c m fs req props st = Inr (None, st') \<Longrightarrow> errors st'"
proof (induction fs arbitrary: req props st)
  case Nil
  then show ?case by simp
next
  case (Cons f fs)
  show ?case
  proof (cases "map_of (validators c) (''validate_'' @ f)")
    case None
    with Cons show ?thesis by simp
  next
    case (Some d)
    show ?thesis
    proof (cases "safe_load d")
      case ScannerError
      with Some Cons show ?thesis by simp
    next
      case OtherYamlError
      with Some Cons.prems show ?thesis by simp
    next
      case (Loaded v)
      show ?thesis
      proof (cases v)
        case (YDict fd)
        with Some Loaded Cons.prems show ?thesis
          using Cons.IH by (auto simp: Let_def split: if_splits)
      qed (use Some Loaded Cons.prems in simp_all)
    qed
  qed
qed

lemma input_fields_append:
  "input_fields c m (xs @ ys) req props st =
     (case input_fields c m xs req props st of
        Inl err \<Rightarrow> Inl err
      | Inr (None, st') \<Rightarrow> Inr (None, st')
      | Inr (Some (req', props'), st') \<Rightarrow> input_fields c m ys req' props' st')"
proof (induction xs arbitrary: req props st)
  case Nil
  then show ?case by simp
next
  case (Cons f fs)
  show ?case
  proof (cases "map_of (validators c) (''validate_'' @ f)")
    case None
    then show ?thesis using Cons.IH by simp
  next
    case (Some d)
    show ?thesis
    proof (cases "safe_load d")
      case ScannerError
      with Some show ?thesis using Cons.IH by simp
    next
      case OtherYamlError
      with Some show ?thesis by simp
    next
      case (Loaded v)
      show ?thesis
      proof (cases v)
        case (YDict fd)
        with Some Loaded show ?thesis using Cons.IH by (simp add: Let_def)
      qed (use Some Loaded in simp_all)
    qed
  qed
qed

lemma input_fields_validators:
  "validators c = validators c' \<Longrightarrow>
     input_fields c m fs req props st = input_fields c' m fs req props st"
proof (induction fs arbitrary: req props st)
  case Nil
  then show ?case by simp
next
  case (Cons f fs)
  show ?case
  proof (cases "map_of (validators c) (''validate_'' @ f)")
    case None
    then show ?thesis using Cons by simp
  next
    case (Some d)
    show ?thesis
    proof (cases "safe_load d")
      case ScannerError
      with Some show ?thesis using Cons by simp
    next
      case OtherYamlError
      with Some show ?thesis using Cons.prems by simp
    next
      case (Loaded v)
      show ?thesis
      proof (cases v)
        case (YDict fd)
        with Some Loaded show ?thesis using Cons by (simp add: Let_def)
      qed (use Some Loaded Cons.prems in simp_all)
    qed
  qed
qed

lemma input_fields_skip:
  assumes "unusable_validator c f"
  shows "input_fields c m (xs @ f # ys) req props st
           = with_error_flag (input_fields c m (xs @ ys) req props st)"
proof -
  have step: "input_fields c m (f # ys) r p s = with_error_flag (input_fields c m ys r p s)"
    for r p s
    using assms input_fields_flag [of c m ys r p s]
    by (auto simp: unusable_validator_def ensure_flag_def split: option.splits)
  show ?thesis
  proof (cases "input_fields c m xs req props st")
    case (Inl err)
    then show ?thesis by (simp add: input_fields_append [of c m xs] with_error_flag_def)
  next
    case (Inr r)
    obtain res st' where r: "r = (res, st')" by (cases r)
    show ?thesis
    proof (cases res)
      case None
      with Inr r have "errors st'" using input_fields_return_flag by blast
      then have "st'\<lparr>errors := True\<rparr> = st'" by simp
      with Inr r None show ?thesis
        by (simp add: input_fields_append [of c m xs] with_error_flag_def)
    next
      case (Some rp)
      obtain r' p' where "rp = (r', p')" by (cases rp)
      with Inr r Some step show ?thesis
        by (simp add: input_fields_append [of c m xs])
    qed
  qed
qed

text \<open>
  The first two cases of claim C8: a field of the validation order whose validator is
  missing, or whose metadata block the YAML scanner cannot read, sets the error flag and
  contributes nothing, and the fields before and after it are processed as if it were
  not in the order: the request body, the registered schema and every other part of the
  result are those of the order without the field.
\<close>

lemma unusable_field_skipped:
  assumes "unusable_validator c field"
  shows "parse_input_schema (c\<lparr>validation_order := before @ field # after\<rparr>) method_spec st
       = with_error_flag (parse_input_schema (c\<lparr>validation_order := before @ after\<rparr>) method_spec st)"
proof -
  have v: "unusable_validator (c\<lparr>validation_order := vo\<rparr>) field" for vo
    using assms by (simp add: unusable_validator_def)
  have same: "input_fields (c\<lparr>validation_order := vo\<rparr>) m fs r p s
                = input_fields (c\<lparr>validation_order := vo'\<rparr>) m fs r p s" for vo vo' m fs r p s
    by (rule input_fields_validators) simp
  have "input_fields (c\<lparr>validation_order := before @ field # after\<rparr>) (method_name st)
          (before @ field # after) [] [] st
        = with_error_flag (input_fields (c\<lparr>validation_order := before @ after\<rparr>) (method_name st)
          (before @ after) [] [] st)"
    using input_fields_skip [OF v, of "before @ field # after" "method_name st" before after "[]" "[]" st]
      same [of "before @ field # after" "method_name st" "before @ after" "[]" "[]" st "before @ after"]
    by simp
  then show ?thesis
    by (auto simp: parse_input_schema_def Let_def with_error_flag_def split: sum.splits option.splits)
qed


lemma widget_schema_name: "replace ''WidgetCreateController'' ''Controller'' [] = ''WidgetCreate''"
  by (simp add: replace_def)

lemma unusable_field_skipped_example:
  "unusable_validator widget_create_controller ''colour''
   \<and> validation_order widget_create_controller = [''name''] @ ''colour'' # [''size'']
   \<and> (\<exists>method_spec' st'.
         parse_input_schema widget_create_controller widget_create_spec widget_create_state
           = Inr (method_spec', st')
         \<and> errors st'
         \<and> map_of (schemas st') ''WidgetCreate''
             = Some (YDict [(KStr ''type'', YStr ''object''),
                            (KStr ''required'', YList [YStr ''name'']),
                            (KStr ''properties'', YDict [
                               (KStr ''name'', YDict [
                                  (KStr ''description'', YStr ''The name of the widget''),
                                  (KStr ''type'', YStr ''string'')]),
                               (KStr ''size'', YDict [
                                  (KStr ''description'', YStr ''The size of the widget''),
                                  (KStr ''type'', YStr ''integer'')])])]))"
proof -
  have u: "unusable_validator widget_create_controller ''colour''"
    by (simp add: unusable_validator_def widget_create_controller_def)
  have vo: "validation_order widget_create_controller = [''name''] @ ''colour'' # [''size'']"
    by (simp add: widget_create_controller_def)
  have c: "widget_create_controller\<lparr>validation_order := [''name''] @ ''colour'' # [''size'']\<rparr>
             = widget_create_controller"
    by (simp add: widget_create_controller_def)
  have rest: "parse_input_schema (widget_create_controller\<lparr>validation_order := [''name''] @ [''size'']\<rparr>)
                widget_create_spec widget_create_state
    = Inr (dict_set (KStr ''requestBody'') (request_body ''create'' ''WidgetCreate'') widget_create_spec,
           widget_create_state\<lparr>schemas := dict_set ''WidgetCreate''
             (YDict [(KStr ''type'', YStr ''object''),
                            (KStr ''required'', YList [YStr ''name'']),
                            (KStr ''properties'', YDict [
                               (KStr ''name'', YDict [
                                  (KStr ''description'', YStr ''The name of the widget''),
                                  (KStr ''type'', YStr ''string'')]),
                               (KStr ''size'', YDict [
                                  (KStr ''description'', YStr ''The size of the widget''),
                                  (KStr ''type'', YStr ''integer'')])])])
             (schemas widget_create_state)\<rparr>)"
    by (simp add: parse_input_schema_def widget_create_controller_def widget_schema_name
          widget_create_state_def name_validator_def size_validator_def ensure_flag_def
          has_key_def dict_del_def input_schema_def Let_def)
  from unusable_field_skipped [OF u, of "[''name'']" "[''size'']" widget_create_spec widget_create_state]
  have "parse_input_schema widget_create_controller widget_create_spec widget_create_state
    = Inr (dict_set (KStr ''requestBody'') (request_body ''create'' ''WidgetCreate'') widget_create_spec,
           widget_create_state\<lparr>schemas := dict_set ''WidgetCreate''
             (YDict [(KStr ''type'', YStr ''object''),
                            (KStr ''required'', YList [YStr ''name'']),
                            (KStr ''properties'', YDict [
                               (KStr ''name'', YDict [
                                  (KStr ''description'', YStr ''The name of the widget''),
                                  (KStr ''type'', YStr ''string'')]),
                               (KStr ''size'', YDict [
                                  (KStr ''description'', YStr ''The size of the widget''),
                                  (KStr ''type'', YStr ''integer'')])])])
             (schemas widget_create_state), errors := True\<rparr>)"
    unfolding c rest by (simp add: with_error_flag_def)
  then have "\<exists>method_spec' st'.
         parse_input_schema widget_create_controller widget_create_spec widget_create_state
           = Inr (method_spec', st')
         \<and> errors st'
         \<and> map_of (schemas st') ''WidgetCreate''
             = Some (YDict [(KStr ''type'', YStr ''object''),
                            (KStr ''required'', YList [YStr ''name'']),
                            (KStr ''properties'', YDict [
                               (KStr ''name'', YDict [
                                  (KStr ''description'', YStr ''The name of the widget''),
                                  (KStr ''type'', YStr ''string'')]),
                               (KStr ''size'', YDict [
                                  (KStr ''description'', YStr ''The size of the widget''),
                                  (KStr ''type'', YStr ''integer'')])])])"
    by (simp add: map_of_dict_set)
  with u vo show ?thesis by blast
qed

text \<open>
  Claim C8 for a metadata value that is not a mapping (a plain text, a list, the
  \<^verbatim>\<open>None\<close> of a missing docstring): the source calls \<^verbatim>\<open>field_data.get\<close> before
  the \<^verbatim>\<open>try\<close> whose handler was written for this case, so the \<^verbatim>\<open>AttributeError\<close>
  is not caught. When the fields before it in the validation order are processed,
  \<^verbatim>\<open>parse_input_schema\<close> ends with the exception: no error is recorded, the fields
  after it are not processed and no schema is registered. The example is the validation
  order \<^verbatim>\<open>name, colour, size\<close> where the block of \<^verbatim>\<open>colour\<close> is a plain text.
\<close>

theorem non_mapping_metadata_aborts:
  assumes "map_of (validators c) (''validate_'' @ field) = Some metadata"
    and "safe_load metadata = Loaded v"
    and "\<not> is_mapping v"
    and "input_fields c (method_name st) before [] [] st = Inr (Some (required, properties), st1)"
  shows "parse_input_schema (c\<lparr>validation_order := before @ field # after\<rparr>) method_spec st
       = Inl AttributeError"
proof -
  have same: "input_fields (c\<lparr>validation_order := vo\<rparr>) m fs r p s = input_fields c m fs r p s"
    for vo m fs r p s
    by (rule input_fields_validators) simp
  have "input_fields c (method_name st) (field # after) required properties st1 = Inl AttributeError"
    using assms(1-3) by (cases v) (simp_all add: is_mapping_def)
  with assms(4) have "input_fields c (method_name st) (before @ field # after) [] [] st
                        = Inl AttributeError"
    by (simp add: input_fields_append [of c "method_name st" before])
  then show ?thesis by (simp add: parse_input_schema_def Let_def same)
qed

theorem non_mapping_metadata_aborts_witness:
  "map_of (validators (widget_create_controller\<lparr>validators :=
        [(''validate_name'', name_validator),
         (''validate_colour'', Yaml (YStr ''The colour of the widget'')),
         (''validate_size'', size_validator)]\<rparr>)) (''validate_'' @ ''colour'')
     = Some (Yaml (YStr ''The colour of the widget''))
   \<and> safe_load (Yaml (YStr ''The colour of the widget'')) = Loaded (YStr ''The colour of the widget'')
   \<and> \<not> is_mapping (YStr ''The colour of the widget'')
   \<and> parse_input_schema
       (widget_create_controller\<lparr>validators :=
          [(''validate_name'', name_validator),
           (''validate_colour'', Yaml (YStr ''The colour of the widget'')),
           (''validate_size'', size_validator)],
          validation_order := [''name''] @ ''colour'' # [''size'']\<rparr>)
       widget_create_spec widget_create_state
     = Inl AttributeError"
proof -
  let ?c = "widget_create_controller\<lparr>validators :=
        [(''validate_name'', name_validator),
         (''validate_colour'', Yaml (YStr ''The colour of the widget'')),
         (''validate_size'', size_validator)]\<rparr>"
  have v: "map_of (validators ?c) (''validate_'' @ ''colour'')
             = Some (Yaml (YStr ''The colour of the widget''))"
    by simp
  have l: "safe_load (Yaml (YStr ''The colour of the widget'')) = Loaded (YStr ''The colour of the widget'')"
    by simp
  have m: "\<not> is_mapping (YStr ''The colour of the widget'')"
    by (simp add: is_mapping_def)
  have b: "input_fields ?c (method_name widget_create_state) [''name''] [] [] widget_create_state
      = Inr (Some ([''name''],
                   [(KStr ''name'', YDict [(KStr ''description'', YStr ''The name of the widget''),
                                           (KStr ''type'', YStr ''string'')])]),
             widget_create_state)"
    by (simp add: widget_create_state_def name_validator_def ensure_flag_def has_key_def
          dict_del_def Let_def)
  from non_mapping_metadata_aborts [OF v l m b, of "[''size'']" widget_create_spec] v l m
  show ?thesis by simp
qed
section \<open>Field-mapping declarations\<close>

lemma extends_refl: "extends st st"
  by (simp add: extends_def)

lemma extends_trans: "extends a b \<Longrightarrow> extends b c \<Longrightarrow> extends a c"
  by (simp add: extends_def)

lemma extends_flag: "extends st (st\<lparr>errors := True\<rparr>)"
  by (simp add: extends_def)

lemma extends_errors: "extends st st' \<Longrightarrow> errors st \<Longrightarrow> errors st'"
  by (simp add: extends_def)

lemma sub_extends:
  assumes "\<And>ser s s'. parse ser s = Inr s' \<Longrightarrow> extends s s'"
    and "parse_sub_serializer parse e name ref st = Inr st'"
  shows "extends st st'"
proof (cases ref)
  case (YStr r)
  show ?thesis
  proof (cases "name = last (split_on CHR ''/'' r)")
    case True
    with YStr assms(2) show ?thesis by (simp add: parse_sub_serializer_def extends_refl)
  next
    case False
    with YStr assms(2) obtain s' where
      s': "parse (map_of (serializer_mod e) (last (split_on CHR ''/'' r) @ ''Serializer''))
             (st\<lparr>model_name := last (split_on CHR ''/'' r)\<rparr>) = Inr s'"
      and st': "st' = s'\<lparr>model_name := model_name st\<rparr>"
      by (auto simp: parse_sub_serializer_def Let_def split: sum.splits)
    from assms(1) [OF s'] st' show ?thesis by (simp add: extends_def)
  qed
qed (use assms(2) in \<open>simp_all add: parse_sub_serializer_def\<close>)

lemma check_field_items_cases:
  assumes "check_field_items sub field_items st = Inr st'"
  shows "st' = st \<or> st' = st\<lparr>errors := True\<rparr> \<or> (\<exists>ref. sub ref st = Inr st')"
  using assms
  by (auto simp: check_field_items_def split: sum.splits bool.splits if_splits)

lemma check_extends:
  assumes "\<And>ref s s'. sub ref s = Inr s' \<Longrightarrow> extends s s'"
    and "check_field_items sub field_items st = Inr st'"
  shows "extends st st'"
  using check_field_items_cases [OF assms(2)] assms(1) extends_refl extends_flag by metis

lemma fields_extends:
  assumes "\<And>ref s s'. sub ref s = Inr s' \<Longrightarrow> extends s s'"
  shows "serializer_fields sub items fs df st = Inr (df', st') \<Longrightarrow> extends st st'"
proof (induction fs arbitrary: df st)
  case Nil
  then show ?case by (simp add: extends_refl)
next
  case (Cons f fs)
  show ?case
  proof (cases "contains f ''old_''")
    case True
    with Cons show ?thesis by simp
  next
    case False
    show ?thesis
    proof (cases "KStr f \<in> set df")
      case False
      with \<open>\<not> contains f ''old_''\<close> Cons.prems
      have "serializer_fields sub items fs df (st\<lparr>errors := True\<rparr>) = Inr (df', st')" by simp
      from Cons.IH [OF this] show ?thesis using extends_flag extends_trans by blast
    next
      case True
      with \<open>\<not> contains f ''old_''\<close> Cons.prems obtain fi s1 where
        c1: "check_field_items sub fi st = Inr s1" and
        r1: "serializer_fields sub items fs (removeAll (KStr f) df) s1 = Inr (df', st')"
        by (auto split: option.splits sum.splits)
      have "extends st s1"
        by (rule check_extends [of sub fi st s1]) (use assms c1 in auto)
      moreover from r1 have "extends s1 st'" by (rule Cons.IH)
      ultimately show ?thesis by (rule extends_trans)
    qed
  qed
qed

lemma fields_left:
  "serializer_fields sub items fs df st = Inr (df', st') \<Longrightarrow>
     df' = filter (\<lambda>k. k \<notin> KStr ` {f \<in> set fs. \<not> contains f ''old_''}) df"
proof (induction fs arbitrary: df st)
  case Nil
  then show ?case by simp
next
  case (Cons f fs)
  show ?case
  proof (cases "contains f ''old_''")
    case True
    with Cons.prems have "serializer_fields sub items fs df st = Inr (df', st')" by simp
    from Cons.IH [OF this] True show ?thesis by (auto intro: filter_cong)
  next
    case False
    show ?thesis
    proof (cases "KStr f \<in> set df")
      case False
      with \<open>\<not> contains f ''old_''\<close> Cons.prems
      have "serializer_fields sub items fs df (st\<lparr>errors := True\<rparr>) = Inr (df', st')" by simp
      from Cons.IH [OF this] False show ?thesis by (auto intro: filter_cong)
    next
      case True
      with \<open>\<not> contains f ''old_''\<close> Cons.prems obtain s1 where
        "serializer_fields sub items fs (removeAll (KStr f) df) s1 = Inr (df', st')"
        by (auto split: option.splits sum.splits)
      from Cons.IH [OF this] \<open>\<not> contains f ''old_''\<close> show ?thesis
        by (auto simp: removeAll_filter_not_eq intro: filter_cong)
    qed
  qed
qed

lemma fields_undocumented:
  assumes "\<And>ref s s'. sub ref s = Inr s' \<Longrightarrow> extends s s'"
  shows "serializer_fields sub items fs df st = Inr (df', st') \<Longrightarrow>
     \<exists>f \<in> set fs. \<not> contains f ''old_'' \<and> KStr f \<notin> set df \<Longrightarrow> errors st'"
proof (induction fs arbitrary: df st)
  case Nil
  then show ?case by simp
next
  case (Cons f fs)
  show ?case
  proof (cases "contains f ''old_''")
    case True
    with Cons.prems have "serializer_fields sub items fs df st = Inr (df', st')"
      "\<exists>g \<in> set fs. \<not> contains g ''old_'' \<and> KStr g \<notin> set df" by auto
    then show ?thesis by (rule Cons.IH)
  next
    case False
    show ?thesis
    proof (cases "KStr f \<in> set df")
      case False
      with \<open>\<not> contains f ''old_''\<close> Cons.prems
      have "serializer_fields sub items fs df (st\<lparr>errors := True\<rparr>) = Inr (df', st')" by simp
      from fields_extends [OF assms this] show ?thesis by (simp add: extends_def)
    next
      case True
      with \<open>\<not> contains f ''old_''\<close> Cons.prems(1) obtain s1 where
        rest: "serializer_fields sub items fs (removeAll (KStr f) df) s1 = Inr (df', st')"
        by (auto split: option.splits sum.splits)
      from True Cons.prems(2)
      have "\<exists>g \<in> set fs. \<not> contains g ''old_'' \<and> KStr g \<notin> set (removeAll (KStr f) df)" by auto
      with rest show ?thesis by (rule Cons.IH)
    qed
  qed
qed

lemma extends_ensure_flag: "extends st (ensure_flag d st)"
  by (simp add: ensure_flag_def extends_def)

lemma extends_register: "extends st (register_model req items st)"
  by (simp add: register_model_def extends_def has_key_dict_set)

lemma parse_extends: "parse_serializer n e ser st = Inr st' \<Longrightarrow> extends st st'"
proof (induction n arbitrary: ser st st')
  case 0
  then show ?case by simp
next
  case (Suc n)
  have sub: "\<And>name ref s s'. parse_sub_serializer (parse_serializer n e) e name ref s = Inr s'
               \<Longrightarrow> extends s s'"
    using sub_extends Suc.IH by blast
  show ?case
  proof (cases ser)
    case None
    with Suc.prems show ?thesis by (simp add: extends_refl)
  next
    case (Some sr)
    show ?thesis
    proof (cases "has_key (model_name st) (schemas st)")
      case True
      with Some Suc.prems show ?thesis by (simp add: extends_refl)
    next
      case False
      let ?st1 = "ensure_flag (ser_doc sr) st"
      have e1: "extends st ?st1" by (rule extends_ensure_flag)
      show ?thesis
      proof (cases "safe_load (ser_doc sr)")
        case ScannerError
        with Some False Suc.prems have "st' = ?st1\<lparr>errors := True\<rparr>" by (simp add: Let_def)
        with e1 show ?thesis using extends_flag extends_trans by blast
      next
        case OtherYamlError
        with Some False Suc.prems show ?thesis by (simp add: Let_def)
      next
        case (Loaded v)
        show ?thesis
        proof (cases v)
          case (YDict items)
          with Some False Loaded Suc.prems obtain left st2 where
            loop: "reconcile_fields (parse_serializer n e) e sr items ?st1 = Inr (left, st2)"
            and out: "st' = (if left \<noteq> [] then st2\<lparr>errors := True\<rparr>
                             else register_model (map fst items) items st2)"
            by (auto simp: Let_def split: sum.splits if_splits)
          from loop have "extends ?st1 st2"
            unfolding reconcile_fields_def using fields_extends sub by blast
          moreover have "extends st2 st'"
            using out extends_flag extends_register by simp
          ultimately show ?thesis using e1 extends_trans by blast
        next
          case YNone
          with Some False Loaded Suc.prems have "st' = ?st1\<lparr>errors := True\<rparr>" by (simp add: Let_def)
          with e1 show ?thesis using extends_flag extends_trans by blast
        next
          case (YBool b)
          with Some False Loaded Suc.prems have "st' = ?st1\<lparr>errors := True\<rparr>" by (simp add: Let_def)
          with e1 show ?thesis using extends_flag extends_trans by blast
        next
          case (YInt i)
          with Some False Loaded Suc.prems have "st' = ?st1\<lparr>errors := True\<rparr>" by (simp add: Let_def)
          with e1 show ?thesis using extends_flag extends_trans by blast
        next
          case (YStr x)
          with Some False Loaded Suc.prems have "st' = ?st1\<lparr>errors := True\<rparr>" by (simp add: Let_def)
          with e1 show ?thesis using extends_flag extends_trans by blast
        next
          case (YList xs)
          with Some False Loaded Suc.prems have "st' = ?st1\<lparr>errors := True\<rparr>" by (simp add: Let_def)
          with e1 show ?thesis using extends_flag extends_trans by blast
        next
          case (YShared i w)
          with Some False Loaded Suc.prems have "st' = ?st1\<lparr>errors := True\<rparr>" by (simp add: Let_def)
          with e1 show ?thesis using extends_flag extends_trans by blast
        qed
      qed
    qed
  qed
qed

lemma run_cases:
  "(case r of Inl err \<Rightarrow> False | Inr st' \<Rightarrow> P st') \<Longrightarrow> \<exists>st'. r = Inr st' \<and> P st'"
  by (cases r) simp_all

lemma parse_declaration:
  assumes "\<not> has_key (model_name st) (schemas st)"
    and "ser_doc ser = Yaml (YDict items)"
    and "parse_serializer (Suc depth) e (Some ser) st = Inr st'"
  shows "\<exists>left st2.
    reconcile_fields (parse_serializer depth e) e ser items st = Inr (left, st2)
    \<and> left = filter (\<lambda>k. k \<notin> implemented ser) (map fst items)
    \<and> (left \<noteq> [] \<longrightarrow> st' = st2\<lparr>errors := True\<rparr>)
    \<and> (left = [] \<longrightarrow> st' = register_model (map fst items) items st2)
    \<and> extends st st2"
proof -
  from assms obtain left st2 where
    loop: "reconcile_fields (parse_serializer depth e) e ser items st = Inr (left, st2)"
    and out: "st' = (if left \<noteq> [] then st2\<lparr>errors := True\<rparr>
                     else register_model (map fst items) items st2)"
    by (auto simp: Let_def ensure_flag_def split: sum.splits if_splits)
  from loop have "left = filter (\<lambda>k. k \<notin> implemented ser) (map fst items)"
    unfolding reconcile_fields_def implemented_def by (rule fields_left)
  moreover have "extends st st2"
  proof -
    have "\<And>ref s s'. parse_sub_serializer (parse_serializer depth e) e (ser_name ser) ref s = Inr s'
            \<Longrightarrow> extends s s'"
      using sub_extends parse_extends by blast
    with loop show ?thesis unfolding reconcile_fields_def using fields_extends by blast
  qed
  ultimately show ?thesis using loop out by auto
qed

text \<open>
  Claim C1, amended: for a declaration that is processed (its entity not yet registered,
  its documentation block a mapping, the call returning), the implemented fields
  without those marked \<^verbatim>\<open>old_\<close> and the documented keys are compared in both
  directions, and every asymmetry sets the error flag. When a documented key is not
  implemented, the call returns the state its loop over the fields ended in with the
  flag set: nothing is registered for the declaration. When the flag is not set at the
  end, the two sets are equal. An implemented field that is not documented sets the
  flag and no more: see the counterexample.
\<close>

theorem field_sets_reconciled:
  assumes "\<not> has_key (model_name st) (schemas st)"
    and "ser_doc ser = Yaml (YDict items)"
    and "parse_serializer (Suc depth) e (Some ser) st = Inr st'"
  shows "(\<not> implemented ser \<subseteq> fst ` set items \<longrightarrow> errors st')
    \<and> (\<not> fst ` set items \<subseteq> implemented ser \<longrightarrow>
         errors st' \<and>
         (\<exists>left st2. reconcile_fields (parse_serializer depth e) e ser items st = Inr (left, st2)
            \<and> st' = st2\<lparr>errors := True\<rparr>))
    \<and> (\<not> errors st' \<longrightarrow> implemented ser = fst ` set items)"
proof -
  from assms obtain left st2 where
    loop: "reconcile_fields (parse_serializer depth e) e ser items st = Inr (left, st2)" and
    left: "left = filter (\<lambda>k. k \<notin> implemented ser) (map fst items)" and
    bad: "left \<noteq> [] \<Longrightarrow> st' = st2\<lparr>errors := True\<rparr>" and
    good: "left = [] \<Longrightarrow> st' = register_model (map fst items) items st2" and
    ext: "extends st st2"
    using parse_declaration by blast
  have sub: "\<And>ref s s'. parse_sub_serializer (parse_serializer depth e) e (ser_name ser) ref s = Inr s'
            \<Longrightarrow> extends s s'"
    using sub_extends parse_extends by blast
  have undocumented: "errors st'" if "\<not> implemented ser \<subseteq> fst ` set items"
  proof -
    from that have "\<exists>f \<in> set (field_map ser). \<not> contains f ''old_'' \<and> KStr f \<notin> set (map fst items)"
      by (auto simp: implemented_def)
    with loop have "errors st2"
      unfolding reconcile_fields_def using fields_undocumented [of "parse_sub_serializer (parse_serializer depth e) e (ser_name ser)"] sub
      by blast
    then show ?thesis using bad good by (cases "left = []") (simp_all add: register_model_def)
  qed
  have unimplemented: "left \<noteq> []" if "\<not> fst ` set items \<subseteq> implemented ser"
    using that left by (auto simp: filter_empty_conv)
  show ?thesis
  proof (intro conjI impI)
    assume "\<not> implemented ser \<subseteq> fst ` set items"
    then show "errors st'" by (rule undocumented)
  next
    assume a: "\<not> fst ` set items \<subseteq> implemented ser"
    from unimplemented [OF a] bad show "errors st'" by simp
    from unimplemented [OF a] bad loop
    show "\<exists>left st2. reconcile_fields (parse_serializer depth e) e ser items st = Inr (left, st2)
            \<and> st' = st2\<lparr>errors := True\<rparr>" by blast
  next
    assume "\<not> errors st'"
    with undocumented unimplemented bad show "implemented ser = fst ` set items"
      by (cases "left = []") auto
  qed
qed

lemma no_widget: "\<not> has_key ''Widget'' default_schemas"
  by (simp add: has_key_def default_schemas_def)

text \<open>
  Claim C1 says that after an asymmetry in either direction the components area has no
  schema entry for the declaration. For an implemented field that the documentation
  lacks, the source records the error and goes on to the next field; when no documented
  key is left over at the end it registers the three schemas of the entity all the
  same. The declaration implements \<^verbatim>\<open>id\<close>, \<^verbatim>\<open>name\<close> and \<^verbatim>\<open>colour\<close> and
  documents \<^verbatim>\<open>id\<close> and \<^verbatim>\<open>name\<close>.
\<close>

theorem undocumented_field_counterexample:
  "(case parse_serializer 1000 base_env (Some undocumented_serializer) widget_entity_state of
      Inl err \<Rightarrow> False
    | Inr st' \<Rightarrow> errors st' \<and> has_key ''Widget'' (schemas st')
                  \<and> has_key ''WidgetResponse'' (schemas st') \<and> has_key ''WidgetList'' (schemas st'))
   \<and> KStr ''colour'' \<in> implemented undocumented_serializer
   \<and> KStr ''colour'' \<notin> fst ` set widget_fields_doc
   \<and> \<not> has_key ''Widget'' (schemas widget_entity_state)"
  by code_simp


theorem field_sets_reconciled_witness:
  "\<not> has_key (model_name widget_entity_state) (schemas widget_entity_state)
   \<and> ser_doc undocumented_serializer = Yaml (YDict widget_fields_doc)
   \<and> ser_doc unimplemented_serializer = Yaml (YDict widget_fields_doc)
   \<and> ser_doc widget_serializer = Yaml (YDict widget_fields_doc)
   \<and> KStr ''colour'' \<in> implemented undocumented_serializer
   \<and> KStr ''colour'' \<notin> fst ` set widget_fields_doc
   \<and> (\<exists>st'. parse_serializer (Suc 0) base_env (Some undocumented_serializer) widget_entity_state
                = Inr st' \<and> errors st')
   \<and> KStr ''name'' \<in> fst ` set widget_fields_doc
   \<and> KStr ''name'' \<notin> implemented unimplemented_serializer
   \<and> (\<exists>st'. parse_serializer (Suc 0) base_env (Some unimplemented_serializer) widget_entity_state
                = Inr st' \<and> errors st' \<and> \<not> has_key ''Widget'' (schemas st'))
   \<and> (\<exists>st'. parse_serializer (Suc 0) base_env (Some widget_serializer) widget_entity_state
                = Inr st' \<and> \<not> errors st' \<and> has_key ''Widget'' (schemas st')
                \<and> implemented widget_serializer = fst ` set widget_fields_doc)"
proof -
  have nr: "\<not> has_key (model_name widget_entity_state) (schemas widget_entity_state)"
    by (simp add: widget_entity_state_def initial_state_def no_widget)
  have d1: "ser_doc undocumented_serializer = Yaml (YDict widget_fields_doc)"
    by (simp add: undocumented_serializer_def)
  have d2: "ser_doc unimplemented_serializer = Yaml (YDict widget_fields_doc)"
    by (simp add: unimplemented_serializer_def)
  have d3: "ser_doc widget_serializer = Yaml (YDict widget_fields_doc)"
    by (simp add: widget_serializer_def)
  have c1: "KStr ''colour'' \<in> implemented undocumented_serializer"
    by (simp add: implemented_def undocumented_serializer_def)
  have c2: "KStr ''colour'' \<notin> fst ` set widget_fields_doc"
    by (simp add: widget_fields_doc_def)
  have n1: "KStr ''name'' \<in> fst ` set widget_fields_doc"
    by (simp add: widget_fields_doc_def)
  have n2: "KStr ''name'' \<notin> implemented unimplemented_serializer"
    by (auto simp: implemented_def unimplemented_serializer_def)
  have "case parse_serializer (Suc 0) base_env (Some undocumented_serializer) widget_entity_state of
          Inl err \<Rightarrow> False | Inr st' \<Rightarrow> True"
    by code_simp
  then obtain s1 where
    r1: "parse_serializer (Suc 0) base_env (Some undocumented_serializer) widget_entity_state = Inr s1"
    using run_cases by blast
  from field_sets_reconciled [OF nr d1 r1] c1 c2 have e1: "errors s1" by blast
  have "case parse_serializer (Suc 0) base_env (Some unimplemented_serializer) widget_entity_state of
          Inl err \<Rightarrow> False | Inr st' \<Rightarrow> \<not> has_key ''Widget'' (schemas st')"
    by code_simp
  then obtain s2 where
    r2: "parse_serializer (Suc 0) base_env (Some unimplemented_serializer) widget_entity_state = Inr s2"
    and k2: "\<not> has_key ''Widget'' (schemas s2)"
    using run_cases by blast
  from field_sets_reconciled [OF nr d2 r2] n1 n2 have e2: "errors s2" by blast
  have "case parse_serializer (Suc 0) base_env (Some widget_serializer) widget_entity_state of
          Inl err \<Rightarrow> False | Inr st' \<Rightarrow> \<not> errors st' \<and> has_key ''Widget'' (schemas st')"
    by code_simp
  then obtain s3 where
    r3: "parse_serializer (Suc 0) base_env (Some widget_serializer) widget_entity_state = Inr s3"
    and k3: "\<not> errors s3" "has_key ''Widget'' (schemas s3)"
    using run_cases by blast
  from field_sets_reconciled [OF nr d3 r3] k3(1)
  have e3: "implemented widget_serializer = fst ` set widget_fields_doc" by blast
  from nr d1 d2 d3 c1 c2 n1 n2 r1 e1 r2 k2 e2 r3 k3 e3 show ?thesis by blast
qed

section \<open>Self-reference\<close>

lemma parse_module_frame:
  "\<exists>st'. parse_module e st = Inr st' \<and> schemas st' = schemas st \<and> paths st' = paths st"
proof (cases "version e")
  case None
  then show ?thesis by (simp add: parse_module_def Let_def)
next
  case (Some v)
  let ?st2 = "st\<lparr>info := dict_set (KStr ''version'') (YStr v)
     (dict_set (KStr ''title'') (YStr (capitalise (module_name e))) (info st))\<rparr>"
  obtain d where "ensure_docstring (module_doc e) ?st2
      = Inr (d, ?st2\<lparr>errors := errors ?st2 \<or> module_doc e = None\<rparr>)"
    using ensure_docstring_total [of "module_doc e" ?st2] by blast
  with Some show ?thesis by (simp add: parse_module_def Let_def)
qed

text \<open>The first half of claim C2: an entity that is registered is not parsed again.\<close>

lemma parse_registered:
  "has_key (model_name st) (schemas st) \<Longrightarrow> parse_serializer (Suc depth) e (Some ser) st = Inr st"
  by simp

lemma widget_ref_name: "last (split_on CHR ''/'' ''#/components/schemas/Widget'') = ''Widget''"
  by simp

lemma self_ref_recursion:
  assumes "model_name st = ''Widget''" and "\<not> has_key ''Widget'' (schemas st)"
  shows "parse_serializer depth self_ref_env (Some self_ref_serializer) st = Inl RecursionError"
  using assms
proof (induction depth arbitrary: st)
  case 0
  then show ?case by simp
next
  case (Suc depth)
  have inner: "parse_serializer depth self_ref_env (Some self_ref_serializer)
                 (st\<lparr>model_name := ''Widget''\<rparr>) = Inl RecursionError"
    using Suc.prems by (intro Suc.IH) simp_all
  have sub: "parse_sub_serializer (parse_serializer depth self_ref_env) self_ref_env
               ''WidgetSerializer'' (YStr ''#/components/schemas/Widget'') st = Inl RecursionError"
    using inner
    by (simp add: parse_sub_serializer_def self_ref_env_def base_env_def Let_def)
  show ?case
    using Suc.prems sub
    by (simp add: reconcile_fields_def self_ref_serializer_def ensure_flag_def
          check_field_items_def has_key_def)
qed

lemma collection_model:
  "replace (replace ''WidgetCollection'' ''Collection'' []) ''Resource'' [] = ''Widget''"
  by (simp add: replace_def)

lemma self_ref_env_parts:
  "serializer_mod self_ref_env = [(''WidgetSerializer'', self_ref_serializer)]"
  "view_module self_ref_env = [(''WidgetCollection'', widget_collection)]"
  "modules self_ref_env = [(''widgets.views.widget'', widget_file)]"
  "urlpatterns self_ref_env = [\<lparr>lookup_str = ''widgets.views.widget.WidgetCollection'',
                                 pattern = ''widget/''\<rparr>]"
  "view_files self_ref_env = []"
  "version self_ref_env = Some ''1.0.0''"
  by (simp_all add: self_ref_env_def base_env_def)

lemma view_class_self_ref:
  assumes "\<not> has_key ''Widget'' (schemas st)"
  shows "parse_view_class limit self_ref_env widget_collection st = Inl RecursionError"
proof -
  let ?st1 = "st\<lparr>get_is_list := contains ''WidgetCollection'' ''Collection'', model_name := ''Widget''\<rparr>"
  have "parse_serializer limit self_ref_env (Some self_ref_serializer) ?st1 = Inl RecursionError"
    using assms by (intro self_ref_recursion) simp_all
  then show ?thesis
    by (simp add: parse_view_class_def widget_collection_def collection_model Let_def
          self_ref_env_parts)
qed

lemma module_self_ref:
  "\<exists>st1. parse_module self_ref_env initial_state = Inr st1 \<and> schemas st1 = schemas initial_state"
  using parse_module_frame [of self_ref_env initial_state] by blast

lemma lookup_parts:
  "split_on CHR ''.'' ''widgets.views.widget.WidgetCollection''
     = [''widgets'', ''views'', ''widget'', ''WidgetCollection'']"
  by simp

text \<open>
  Claim C2 says that a declaration that refers to itself is reconciled without error
  and without end-less recursion. \<^verbatim>\<open>parse_sub_serializer\<close> is written to skip a
  reference to the declaration being parsed, but it compares the class name of the
  declaration (\<^verbatim>\<open>WidgetSerializer\<close>) with the last part of the reference
  (\<^verbatim>\<open>Widget\<close>), which differ under the naming convention that the same method uses
  to find the declaration; and the entity is registered only after the loop over its
  fields. So the declaration is parsed again inside its own loop, at every depth: for
  every room the interpreter's stack has, the run of the module ends in a
  \<^verbatim>\<open>RecursionError\<close>.
\<close>

theorem self_reference_never_returns:
  "handle limit self_ref_env = Inl RecursionError"
proof -
  obtain st1 where st1: "parse_module self_ref_env initial_state = Inr st1"
    "schemas st1 = schemas initial_state"
    using module_self_ref by blast
  have nw: "\<not> has_key ''Widget'' (schemas st1)"
    using st1(2) no_widget by (simp add: initial_state_def)
  have "parse_urlpattern limit self_ref_env
          \<lparr>lookup_str = ''widgets.views.widget.WidgetCollection'', pattern = ''widget/''\<rparr> st1
        = Inl RecursionError"
    using nw
    by (simp add: parse_urlpattern_def Let_def lookup_parts self_ref_env_parts view_class_self_ref)
  with st1(1) show ?thesis
    by (simp add: handle_def self_ref_env_parts)
qed

theorem self_reference_never_returns_witness:
  "handle 1000 self_ref_env = Inl RecursionError"
  by (rule self_reference_never_returns)

section \<open>References and the components area\<close>


lemma resolves_response: "resolves st (''#/components/responses/'' @ n) = has_key n default_responses"
  by (simp add: resolves_def)

lemmas resolves_response_simp = resolves_response [simplified]











end
